theory Spec2Isabelle
  imports Complex_Main
begin

section \<open>JavaScript numbers\<close>

text \<open>
  Every \<^verbatim>\<open>number\<close> of the TypeScript sources is an IEEE 754 binary64 value. The
  simulation rounds products such as \<^verbatim>\<open>330 * 1.15\<close> with \<^verbatim>\<open>Math.round\<close>, and the
  binary rounding of the product decides on which side of \<^verbatim>\<open>.5\<close> it falls, so the
  arithmetic is modelled with its rounding: a finite value is the real number it denotes,
  and every arithmetic result is rounded to the nearest binary64 value (ties to even,
  gradual underflow below \<open>2\<^sup>-\<^sup>1\<^sup>0\<^sup>2\<^sup>2\<close>, overflow to an infinity at \<open>2\<^sup>1\<^sup>0\<^sup>2\<^sup>4\<close>).
  \<open>Num x\<close> is written for every real \<open>x\<close>; an input of the program is a binary64
  value, a real that the rounding leaves unchanged.

  The two zeros are identified. They are equal under every comparison of the sources,
  and a zero divisor is read as \<^verbatim>\<open>+0\<close>: the modelled code divides by the literals
  \<^verbatim>\<open>5\<close>, \<^verbatim>\<open>2\<close>, \<^verbatim>\<open>8\<close> and \<^verbatim>\<open>1000\<close>, by a \<^verbatim>\<open>maxHR\<close> that it has tested to be
  non-zero, and by \<^verbatim>\<open>predictedTotal\<close> and \<^verbatim>\<open>predictedTotal - roxzoneTime\<close>, a sum and
  a difference that are \<^verbatim>\<open>+0\<close> whenever they are zero. The quotient
  \<^verbatim>\<open>currentHR / maxHR\<close> that the coach rules are compared with has a non-zero heart
  rate over a zero maximum in one example only, where the maximum is the literal \<^verbatim>\<open>0\<close>;
  a zero heart rate over a zero maximum is \<^verbatim>\<open>NaN\<close> for either zero.
\<close>

datatype jsnum = Num real | PosInf | NegInf | NaN

fun bitlen :: "nat \<Rightarrow> nat" where
  "bitlen n = (if n = 0 then 0 else Suc (bitlen (n div 2)))"

declare bitlen.simps [simp del]

definition exponent_of :: "real \<Rightarrow> int" where
  \<comment> \<open>\<open>\<lfloor>log\<^sub>2 \<bar>x\<bar>\<rfloor>\<close> for \<open>x \<noteq> 0\<close>\<close>
  "exponent_of x = (let a = \<bar>x\<bar> in
     if 1 \<le> a then int (bitlen (nat \<lfloor>a\<rfloor>)) - 1
     else - int (bitlen (nat (\<lceil>1 / a\<rceil> - 1))))"

definition pow2 :: "int \<Rightarrow> real" where
  "pow2 k = (if 0 \<le> k then 2 ^ nat k else 1 / 2 ^ nat (- k))"

definition round_half_even :: "real \<Rightarrow> int" where
  "round_half_even x = (let f = \<lfloor>x\<rfloor>; d = x - of_int f in
      if d < 1 / 2 then f else if 1 / 2 < d then f + 1
      else if even f then f else f + 1)"

definition fl :: "real \<Rightarrow> jsnum" where
  \<comment> \<open>round to nearest binary64, ties to even: 53 significant bits\<close>
  "fl x = (if x = 0 then Num 0 else
     let e = max (exponent_of x) (- 1022);
         q = pow2 (e - 52);
         r = of_int (round_half_even (x / q)) * q
     in if 2 ^ 1024 \<le> r then PosInf
        else if r \<le> - (2 ^ 1024) then NegInf
        else Num r)"

definition dec :: "real \<Rightarrow> jsnum" where
  \<comment> \<open>a decimal literal of the source denotes the binary64 value nearest to it\<close>
  "dec r = fl r"

fun sign_of :: "jsnum \<Rightarrow> real" where
  "sign_of (Num x) = sgn x"
| "sign_of PosInf = 1"
| "sign_of NegInf = - 1"
| "sign_of NaN = 0"

definition inf_of_sign :: "real \<Rightarrow> jsnum" where
  "inf_of_sign s = (if 0 < s then PosInf else if s < 0 then NegInf else NaN)"

fun js_neg :: "jsnum \<Rightarrow> jsnum" where
  "js_neg (Num x) = Num (- x)"
| "js_neg PosInf = NegInf"
| "js_neg NegInf = PosInf"
| "js_neg NaN = NaN"

fun js_add :: "jsnum \<Rightarrow> jsnum \<Rightarrow> jsnum" where
  "js_add (Num x) (Num y) = fl (x + y)"
| "js_add NaN _ = NaN"
| "js_add _ NaN = NaN"
| "js_add PosInf NegInf = NaN"
| "js_add NegInf PosInf = NaN"
| "js_add PosInf _ = PosInf"
| "js_add _ PosInf = PosInf"
| "js_add NegInf _ = NegInf"
| "js_add _ NegInf = NegInf"

definition js_sub :: "jsnum \<Rightarrow> jsnum \<Rightarrow> jsnum" where
  "js_sub a b = js_add a (js_neg b)"

fun js_mul :: "jsnum \<Rightarrow> jsnum \<Rightarrow> jsnum" where
  "js_mul (Num x) (Num y) = fl (x * y)"
| "js_mul NaN _ = NaN"
| "js_mul _ NaN = NaN"
| "js_mul a b = inf_of_sign (sign_of a * sign_of b)"

fun js_div :: "jsnum \<Rightarrow> jsnum \<Rightarrow> jsnum" where
  "js_div (Num x) (Num y) = (if y = 0 then inf_of_sign (sgn x) else fl (x / y))"
| "js_div NaN _ = NaN"
| "js_div _ NaN = NaN"
| "js_div (Num x) _ = Num 0"
| "js_div a (Num y) = inf_of_sign (sign_of a * (if y < 0 then - 1 else 1))"
| "js_div _ _ = NaN"

fun js_mod :: "jsnum \<Rightarrow> jsnum \<Rightarrow> jsnum" where
  \<comment> \<open>\<^verbatim>\<open>%\<close>: the remainder of the truncating division, exact in binary64\<close>
  "js_mod (Num x) (Num y) =
     (if y = 0 then NaN
      else Num (x - y * of_int (if 0 \<le> x / y then \<lfloor>x / y\<rfloor> else \<lceil>x / y\<rceil>)))"
| "js_mod NaN _ = NaN"
| "js_mod _ NaN = NaN"
| "js_mod (Num x) _ = Num x"
| "js_mod _ _ = NaN"

fun js_lt :: "jsnum \<Rightarrow> jsnum \<Rightarrow> bool" where
  "js_lt NaN _ = False"
| "js_lt _ NaN = False"
| "js_lt (Num x) (Num y) = (x < y)"
| "js_lt PosInf _ = False"
| "js_lt _ PosInf = True"
| "js_lt _ NegInf = False"
| "js_lt NegInf _ = True"

definition js_eq :: "jsnum \<Rightarrow> jsnum \<Rightarrow> bool" where
  \<comment> \<open>\<^verbatim>\<open>===\<close> on numbers\<close>
  "js_eq a b = (a = b \<and> a \<noteq> NaN)"

definition js_gt :: "jsnum \<Rightarrow> jsnum \<Rightarrow> bool" where
  "js_gt a b = js_lt b a"

definition js_le :: "jsnum \<Rightarrow> jsnum \<Rightarrow> bool" where
  "js_le a b = (js_lt a b \<or> js_eq a b)"

definition js_ge :: "jsnum \<Rightarrow> jsnum \<Rightarrow> bool" where
  "js_ge a b = js_le b a"

definition js_truthy :: "jsnum \<Rightarrow> bool" where
  \<comment> \<open>a number in a boolean position: \<^verbatim>\<open>0\<close> and \<^verbatim>\<open>NaN\<close> are falsy\<close>
  "js_truthy a = (a \<noteq> Num 0 \<and> a \<noteq> NaN)"

fun Math_round :: "jsnum \<Rightarrow> jsnum" where
  \<comment> \<open>the nearest integer, a tie going up\<close>
  "Math_round (Num x) = Num (of_int \<lfloor>x + 1 / 2\<rfloor>)"
| "Math_round a = a"

fun Math_floor :: "jsnum \<Rightarrow> jsnum" where
  "Math_floor (Num x) = Num (of_int \<lfloor>x\<rfloor>)"
| "Math_floor a = a"

definition Math_min :: "jsnum \<Rightarrow> jsnum \<Rightarrow> jsnum" where
  "Math_min a b = (if a = NaN \<or> b = NaN then NaN else if js_lt b a then b else a)"

definition Math_max :: "jsnum \<Rightarrow> jsnum \<Rightarrow> jsnum" where
  "Math_max a b = (if a = NaN \<or> b = NaN then NaN else if js_lt a b then b else a)"

section \<open>The simulation engine (\<^verbatim>\<open>lib/api.ts\<close>)\<close>

datatype SledComfort = comfortable | manageable | soul_crushing

datatype PerformanceTier = elite | advanced | intermediate | beginner | recreational

datatype SegmentType =
  RUN | SKI_ERG | SLED_PUSH | SLED_PULL | BURPEE_BROAD_JUMP | ROW | FARMERS_CARRY
  | SANDBAG_LUNGES | WALL_BALLS

datatype Feasibility = too_fast | aggressive | realistic | easy

datatype RiskLevel = low | moderate | high | critical

datatype Limiter = goal_pace | execution | aerobic | pacing

datatype Mode = prediction | goal

text \<open>
  Of \<^verbatim>\<open>AthleteProfile\<close> the simulation reads three fields; the others
  (\<^verbatim>\<open>swim_background\<close>, \<^verbatim>\<open>lunge_tolerance\<close>, \<^verbatim>\<open>weight_kg\<close>, ...) are never used.
\<close>

record AthleteProfile =
  five_k_time_seconds :: jsnum
  sled_comfort :: SledComfort
  wall_ball_unbroken_max :: jsnum

record SegmentPlan =
  segment_order :: nat
  segment_type :: SegmentType
  target_time_seconds :: jsnum
  risk_level :: RiskLevel

record FinishTimePrediction =
  conservative_seconds :: jsnum
  likely_seconds :: jsnum
  aggressive_seconds :: jsnum
  confidence_score :: jsnum
  predicted_finish_seconds :: jsnum

record RiskAnalysis =
  high_risk_segments :: "nat list"
  danger_runs :: "nat list"
  primary_limiter :: Limiter
  blow_up_probability :: jsnum

record PenaltyWarning =
  station :: SegmentType
  time_penalty_seconds :: nat

text \<open>
  The result without its texts (identifiers, time stamps, display strings, execution
  cues, insights) and without the effort and fatigue percentages of a segment.
\<close>

record RaceSimulation =
  mode :: Mode
  goal_time_seconds :: "jsnum option"
  goal_feasibility :: "Feasibility option"
  predictions :: FinishTimePrediction
  segment_plans :: "SegmentPlan list"
  risk_analysis :: RiskAnalysis
  penalty_warnings :: "PenaltyWarning list"
  total_run_time_seconds :: jsnum
  total_station_time_seconds :: jsnum
  total_roxzone_time_seconds :: jsnum
  estimated_tier :: PerformanceTier

definition baseRunTime :: "AthleteProfile \<Rightarrow> jsnum" where
  "baseRunTime profile =
     Math_round (js_mul (js_div (five_k_time_seconds profile) (Num 5)) (dec (11 / 10)))"

definition tier_of :: "AthleteProfile \<Rightarrow> PerformanceTier" where
  "tier_of profile =
     (if js_lt (five_k_time_seconds profile) (Num (20 * 60)) then elite
      else if js_lt (five_k_time_seconds profile) (Num (24 * 60)) then advanced
      else if js_gt (five_k_time_seconds profile) (Num (30 * 60)) then beginner
      else intermediate)"

definition segments :: "jsnum \<Rightarrow> (SegmentType \<times> jsnum) list" where
  "segments b =
     [(RUN, b), (SKI_ERG, Num 240), (RUN, b), (SLED_PUSH, Num 180),
      (RUN, b), (SLED_PULL, Num 240), (RUN, b), (BURPEE_BROAD_JUMP, Num 300),
      (RUN, b), (ROW, Num 240), (RUN, b), (FARMERS_CARRY, Num 120),
      (RUN, b), (SANDBAG_LUNGES, Num 270), (RUN, b), (WALL_BALLS, Num 360)]"

definition degradation :: "int \<Rightarrow> jsnum" where
  \<comment> \<open>\<^verbatim>\<open>1 + (runNum - 1) * 0.05\<close>\<close>
  "degradation runNum = js_add (Num 1) (js_mul (Num (of_int (runNum - 1))) (dec (1 / 20)))"

definition station_time :: "AthleteProfile \<Rightarrow> SegmentType \<Rightarrow> jsnum \<Rightarrow> jsnum" where
  \<comment> \<open>the station modifiers of the profile, before rounding\<close>
  "station_time profile ty baseTime =
     (let t1 = (if ty = SLED_PUSH \<or> ty = SLED_PULL
                then (if sled_comfort profile = soul_crushing then js_mul baseTime (dec (13 / 10))
                      else if sled_comfort profile = comfortable then js_mul baseTime (dec (85 / 100))
                      else baseTime)
                else baseTime)
      in if ty = WALL_BALLS
         then (if js_lt (wall_ball_unbroken_max profile) (Num 15) then js_mul t1 (dec (13 / 10))
               else if js_gt (wall_ball_unbroken_max profile) (Num 40) then js_mul t1 (dec (85 / 100))
               else t1)
         else t1)"

fun total_loop :: "AthleteProfile \<Rightarrow> jsnum \<Rightarrow> int \<Rightarrow> (SegmentType \<times> jsnum) list \<Rightarrow> jsnum" where
  \<comment> \<open>the first \<^verbatim>\<open>forEach\<close>: \<^verbatim>\<open>predictedTotal\<close> and \<^verbatim>\<open>runNum\<close> are its state\<close>
  "total_loop profile predictedTotal runNum [] = predictedTotal"
| "total_loop profile predictedTotal runNum ((ty, baseTime) # rest) =
     (if ty = RUN
      then total_loop profile
             (js_add predictedTotal (Math_round (js_mul baseTime (degradation (runNum + 1)))))
             (runNum + 1) rest
      else total_loop profile
             (js_add predictedTotal (Math_round (station_time profile ty baseTime)))
             runNum rest)"

definition roxzoneTime :: "PerformanceTier \<Rightarrow> jsnum" where
  "roxzoneTime tier = (if tier = elite then Num 180 else if tier = advanced then Num 300 else Num 420)"

definition predictedTotal :: "AthleteProfile \<Rightarrow> jsnum" where
  "predictedTotal profile =
     js_add (total_loop profile (Num 0) 0 (segments (baseRunTime profile)))
            (roxzoneTime (tier_of profile))"

definition isGoalMode :: "jsnum option \<Rightarrow> bool" where
  \<comment> \<open>\<^verbatim>\<open>typeof goalTimeSeconds === 'number' && goalTimeSeconds > 0\<close>\<close>
  "isGoalMode g = (case g of None \<Rightarrow> False | Some t \<Rightarrow> js_gt t (Num 0))"

definition scaleFactor :: "AthleteProfile \<Rightarrow> jsnum option \<Rightarrow> jsnum" where
  "scaleFactor profile g =
     (case g of
        None \<Rightarrow> Num 1
      | Some t \<Rightarrow>
          if isGoalMode g
          then js_div (js_sub t (roxzoneTime (tier_of profile)))
                      (js_sub (predictedTotal profile) (roxzoneTime (tier_of profile)))
          else Num 1)"

definition goalFeasibility :: "AthleteProfile \<Rightarrow> jsnum option \<Rightarrow> Feasibility" where
  "goalFeasibility profile g =
     (case g of
        None \<Rightarrow> realistic
      | Some t \<Rightarrow>
          if isGoalMode g
          then (let timeDiff = js_sub t (predictedTotal profile);
                    percentDiff = js_mul (js_div timeDiff (predictedTotal profile)) (Num 100)
                in if js_lt percentDiff (Num (- 20)) then too_fast
                   else if js_lt percentDiff (Num (- 10)) then aggressive
                   else if js_lt percentDiff (Num 10) then realistic
                   else easy)
          else realistic)"

definition riskLevel :: "bool \<Rightarrow> Feasibility \<Rightarrow> jsnum \<Rightarrow> RiskLevel" where
  "riskLevel gm feas fatigue =
     (if gm
      then (if feas = too_fast then critical
            else if feas = aggressive \<and> js_gt fatigue (dec (4 / 10)) then high
            else if feas = aggressive then moderate
            else if js_gt fatigue (dec (6 / 10)) then moderate
            else low)
      else (if js_gt fatigue (dec (6 / 10)) then high
            else if js_gt fatigue (dec (4 / 10)) then moderate
            else low))"

fun plan_loop ::
  "AthleteProfile \<Rightarrow> bool \<Rightarrow> jsnum \<Rightarrow> Feasibility \<Rightarrow> nat \<Rightarrow> int \<Rightarrow> jsnum \<Rightarrow> jsnum \<Rightarrow>
   (SegmentType \<times> jsnum) list \<Rightarrow> SegmentPlan list \<times> jsnum \<times> jsnum" where
  \<comment> \<open>\<^verbatim>\<open>segments.map\<close>: the index \<^verbatim>\<open>idx\<close>, and the variables \<^verbatim>\<open>runNum\<close>,
     \<^verbatim>\<open>totalRunTime\<close> and \<^verbatim>\<open>totalStationTime\<close> that the callback updates\<close>
  "plan_loop profile gm sf feas idx runNum totalRunTime totalStationTime [] =
     ([], totalRunTime, totalStationTime)"
| "plan_loop profile gm sf feas idx runNum totalRunTime totalStationTime ((ty, baseTime) # rest) =
     (let fatigue = Math_min (dec (9 / 10)) (js_mul (Num (of_nat idx)) (dec (1 / 20)));
          time =
            (if ty = RUN
             then (let t = Math_round (js_mul baseTime (degradation (runNum + 1)))
                   in if gm then Math_round (js_mul t sf) else t)
             else Math_round
                    (if \<not> gm then station_time profile ty baseTime
                     else Math_round (js_mul baseTime sf)));
          plan = \<lparr>segment_order = idx + 1, segment_type = ty, target_time_seconds = time,
                  risk_level = riskLevel gm feas fatigue\<rparr>;
          (plans, tr, ts) =
            (if ty = RUN
             then plan_loop profile gm sf feas (idx + 1) (runNum + 1)
                    (js_add totalRunTime time) totalStationTime rest
             else plan_loop profile gm sf feas (idx + 1) runNum
                    totalRunTime (js_add totalStationTime time) rest)
      in (plan # plans, tr, ts))"

definition penaltyWarnings :: "AthleteProfile \<Rightarrow> PenaltyWarning list" where
  "penaltyWarnings profile =
     (if sled_comfort profile = soul_crushing
      then [\<lparr>station = SLED_PULL, time_penalty_seconds = 15\<rparr>] else []) @
     (if js_lt (wall_ball_unbroken_max profile) (Num 20)
      then [\<lparr>station = WALL_BALLS, time_penalty_seconds = 15\<rparr>] else [])"

definition generateMockSimulation :: "AthleteProfile \<Rightarrow> jsnum option \<Rightarrow> RaceSimulation" where
  "generateMockSimulation profile goalTimeSeconds =
     (let tier = tier_of profile;
          total = predictedTotal profile;
          gm = isGoalMode goalTimeSeconds;
          sf = scaleFactor profile goalTimeSeconds;
          feas = goalFeasibility profile goalTimeSeconds;
          (segmentPlans, totalRunTime, totalStationTime) =
             plan_loop profile gm sf feas 0 0 (Num 0) (Num 0) (segments (baseRunTime profile));
          goalTime = (case goalTimeSeconds of Some t \<Rightarrow> t | None \<Rightarrow> NaN)
      in \<lparr>mode = (if gm then goal else prediction),
          goal_time_seconds = goalTimeSeconds,
          goal_feasibility = (if gm then Some feas else None),
          predictions =
            \<lparr>conservative_seconds = (if gm then goalTime else Math_round (js_mul total (dec (105 / 100)))),
             likely_seconds = (if gm then goalTime else total),
             aggressive_seconds = (if gm then goalTime else Math_round (js_mul total (dec (95 / 100)))),
             confidence_score =
               (if gm
                then (if feas = realistic then dec (75 / 100)
                      else if feas = easy then dec (9 / 10)
                      else if feas = aggressive then dec (4 / 10)
                      else dec (15 / 100))
                else dec (72 / 100)),
             predicted_finish_seconds = total\<rparr>,
          segment_plans = segmentPlans,
          risk_analysis =
            \<lparr>high_risk_segments =
               map segment_order
                 (filter (\<lambda>s. risk_level s = high \<or> risk_level s = critical) segmentPlans),
             danger_runs = [5, 8],
             primary_limiter =
               (if gm
                then (if feas = too_fast \<or> feas = aggressive then goal_pace else execution)
                else (if js_gt (five_k_time_seconds profile) (Num (26 * 60)) then aerobic else pacing)),
             blow_up_probability =
               (if gm
                then (if feas = too_fast then dec (8 / 10)
                      else if feas = aggressive then dec (5 / 10)
                      else dec (2 / 10))
                else (if tier = beginner then dec (45 / 100)
                      else if tier = intermediate then dec (3 / 10)
                      else dec (15 / 100)))\<rparr>,
          penalty_warnings = penaltyWarnings profile,
          total_run_time_seconds = totalRunTime,
          total_station_time_seconds = totalStationTime,
          total_roxzone_time_seconds = roxzoneTime tier,
          estimated_tier = tier\<rparr>)"


definition USE_MOCK :: bool where
  "USE_MOCK = True"

datatype ApiError = ApiError string int

record SimulationResponse =
  simulation :: RaceSimulation

definition runSimulation ::
  "(AthleteProfile \<Rightarrow> jsnum option \<Rightarrow> ApiError + SimulationResponse) \<Rightarrow>
   AthleteProfile \<Rightarrow> jsnum option \<Rightarrow> ApiError + SimulationResponse" where
  \<comment> \<open>The promise: \<open>Inl\<close> is a rejection. \<open>post\<close> stands for the request to
     \<^verbatim>\<open>/simulate\<close>, which sends the goal only when it is truthy.\<close>
  "runSimulation post profile goalTimeSeconds =
     (if USE_MOCK
      then Inr \<lparr>simulation = generateMockSimulation profile goalTimeSeconds\<rparr>
      else post profile
             (case goalTimeSeconds of
                None \<Rightarrow> None
              | Some t \<Rightarrow> if js_truthy t then Some t else None))"

definition no_backend :: "AthleteProfile \<Rightarrow> jsnum option \<Rightarrow> ApiError + SimulationResponse" where
  \<comment> \<open>a backend that cannot be reached\<close>
  "no_backend profile g = Inl (ApiError ''Network Error'' 0)"

section \<open>The dashboard store (\<^verbatim>\<open>store/dashboardStore.ts\<close>)\<close>

text \<open>
  Counts and whole seconds are integers: the store starts them at \<^verbatim>\<open>0\<close>, changes
  the count by one, and receives \<^verbatim>\<open>totalElapsedSeconds\<close>, a \<^verbatim>\<open>Math.floor\<close>. An index
  outside an array reads \<^verbatim>\<open>undefined\<close>, here \<open>None\<close>.
\<close>

definition SEGMENT_NAMES :: "string list" where
  "SEGMENT_NAMES =
     [''Run 1'', ''SkiErg'', ''Run 2'', ''Sled Push'',
      ''Run 3'', ''Sled Pull'', ''Run 4'', ''Burpee BJ'',
      ''Run 5'', ''Row'', ''Run 6'', ''Farmers Carry'',
      ''Run 7'', ''Lunges'', ''Run 8'', ''Wall Balls'']"

definition SEGMENT_TYPES :: "string list" where
  "SEGMENT_TYPES =
     [''RUN'', ''SKI_ERG'', ''RUN'', ''SLED_PUSH'',
      ''RUN'', ''SLED_PULL'', ''RUN'', ''BURPEE_BROAD_JUMP'',
      ''RUN'', ''ROW'', ''RUN'', ''FARMERS_CARRY'',
      ''RUN'', ''SANDBAG_LUNGES'', ''RUN'', ''WALL_BALLS'']"

definition at_index :: "'a list \<Rightarrow> int \<Rightarrow> 'a option" where
  \<comment> \<open>\<^verbatim>\<open>xs[i]\<close>\<close>
  "at_index xs i = (if 0 \<le> i \<and> i < int (length xs) then Some (xs ! nat i) else None)"

record Participant =
  participant_id :: string
  name :: string
  isUser :: bool
  segmentsCompleted :: int
  currentSegmentIndex :: int
  elapsedSeconds :: int
  lastStationName :: "string option"

record SegmentSplit =
  segmentIndex :: int
  segmentName :: "string option"
  elapsedAtCompletion :: int
  splitSeconds :: int

record DashboardState =
  participants :: "Participant list"
  isActive :: bool
  splits :: "SegmentSplit list"

definition initLiveRace :: "string \<Rightarrow> DashboardState \<Rightarrow> DashboardState" where
  "initLiveRace displayName s =
     s\<lparr>participants :=
          [\<lparr>participant_id = ''user'',
            name = (if displayName = [] then ''You'' else displayName),
            isUser = True,
            segmentsCompleted = 0,
            currentSegmentIndex = 0,
            elapsedSeconds = 0,
            lastStationName = at_index SEGMENT_NAMES 0\<rparr>],
        isActive := True,
        splits := []\<rparr>"

definition advanceSegment :: "int \<Rightarrow> DashboardState \<Rightarrow> DashboardState" where
  "advanceSegment currentElapsedSeconds s =
     (case participants s of
        [] \<Rightarrow> s
      | user # _ \<Rightarrow>
          if 16 \<le> segmentsCompleted user then s
          else
            (let prevElapsed =
                   (if 0 < length (splits s) then elapsedAtCompletion (last (splits s)) else 0);
                 newSplit =
                   \<lparr>segmentIndex = segmentsCompleted user,
                    segmentName = at_index SEGMENT_NAMES (segmentsCompleted user),
                    elapsedAtCompletion = currentElapsedSeconds,
                    splitSeconds = currentElapsedSeconds - prevElapsed\<rparr>;
                 newCompleted = segmentsCompleted user + 1;
                 newIndex = min newCompleted 15
             in s\<lparr>participants :=
                    [user\<lparr>segmentsCompleted := newCompleted,
                          currentSegmentIndex := newIndex,
                          elapsedSeconds := currentElapsedSeconds,
                          lastStationName := at_index SEGMENT_NAMES (min newCompleted 15)\<rparr>],
                  splits := splits s @ [newSplit]\<rparr>))"

definition undoSegment :: "DashboardState \<Rightarrow> DashboardState" where
  "undoSegment s =
     (case participants s of
        [] \<Rightarrow> s
      | user # _ \<Rightarrow>
          if segmentsCompleted user \<le> 0 \<or> length (splits s) = 0 then s
          else
            (let newSplits = butlast (splits s);
                 newCompleted = segmentsCompleted user - 1;
                 prevElapsed =
                   (if 0 < length newSplits then elapsedAtCompletion (last newSplits) else 0)
             in s\<lparr>participants :=
                    [user\<lparr>segmentsCompleted := newCompleted,
                          currentSegmentIndex := newCompleted,
                          elapsedSeconds := prevElapsed,
                          lastStationName := at_index SEGMENT_NAMES newCompleted\<rparr>],
                  splits := newSplits\<rparr>))"

definition updateElapsed :: "int \<Rightarrow> DashboardState \<Rightarrow> DashboardState" where
  "updateElapsed seconds s =
     (case participants s of
        [] \<Rightarrow> s
      | user # _ \<Rightarrow> s\<lparr>participants := [user\<lparr>elapsedSeconds := seconds\<rparr>]\<rparr>)"

definition reset :: "DashboardState \<Rightarrow> DashboardState" where
  "reset s = s\<lparr>participants := [], isActive := False, splits := []\<rparr>"

definition getSegmentType :: "int \<Rightarrow> string option" where
  "getSegmentType index = at_index SEGMENT_TYPES (min index 15)"

datatype TrackerCall = AdvanceSegment int | UndoSegment

fun tracker_call :: "DashboardState \<Rightarrow> TrackerCall \<Rightarrow> DashboardState" where
  "tracker_call s (AdvanceSegment t) = advanceSegment t s"
| "tracker_call s UndoSegment = undoSegment s"

definition tracker_calls :: "TrackerCall list \<Rightarrow> DashboardState \<Rightarrow> DashboardState" where
  \<comment> \<open>a sequence of calls, the first of the list first\<close>
  "tracker_calls calls s = foldl tracker_call s calls"

section \<open>The track mapper (\<^verbatim>\<open>lib/RaceTrackMapper.ts\<close>)\<close>

record TrackPosition =
  stationIndex :: jsnum
  lapFraction :: jsnum
  continuousPosition :: jsnum
  isFinished :: bool
  currentActivity :: string

definition activity_names :: "string list" where
  \<comment> \<open>the values of \<^verbatim>\<open>SEGMENT_ACTIVITIES\<close>, by key\<close>
  "activity_names =
     [''Run 1'', ''SkiErg'', ''Run 2'', ''Sled Push'',
      ''Run 3'', ''Sled Pull'', ''Run 4'', ''Burpee BJ'',
      ''Run 5'', ''Row'', ''Run 6'', ''Farmers Carry'',
      ''Run 7'', ''Lunges'', ''Run 8'', ''Wall Balls'']"

definition SEGMENT_ACTIVITIES :: "jsnum \<Rightarrow> string option" where
  \<comment> \<open>the object has the keys \<^verbatim>\<open>0\<close> to \<^verbatim>\<open>15\<close>; every other number reads \<^verbatim>\<open>undefined\<close>\<close>
  "SEGMENT_ACTIVITIES k =
     (case k of
        Num x \<Rightarrow> if of_int \<lfloor>x\<rfloor> = x then at_index activity_names \<lfloor>x\<rfloor> else None
      | _ \<Rightarrow> None)"

definition getTrackPosition :: "jsnum \<Rightarrow> TrackPosition" where
  "getTrackPosition completed =
     (let clamped = Math_max (Num 0) (Math_min (Num 16) completed)
      in if js_ge clamped (Num 16)
         then \<lparr>stationIndex = Num 7, lapFraction = Num 1, continuousPosition = Num 8,
               isFinished = True, currentActivity = ''Finished''\<rparr>
         else
           (let lap = Math_floor (js_div clamped (Num 2));
                withinLap = js_mod clamped (Num 2);
                frac = (if js_eq withinLap (Num 0) then Num 0 else dec (1 / 2))
            in \<lparr>stationIndex = Math_min lap (Num 7),
                lapFraction = frac,
                continuousPosition = js_add lap frac,
                isFinished = False,
                currentActivity =
                  (case SEGMENT_ACTIVITIES clamped of Some a \<Rightarrow> a | None \<Rightarrow> ''Unknown'')\<rparr>))"

definition positionToPercent :: "jsnum \<Rightarrow> jsnum" where
  "positionToPercent p = js_mul (js_div (Math_max (Num 0) (Math_min (Num 8) p)) (Num 8)) (Num 100)"


section \<open>The redline tracker (\<^verbatim>\<open>lib/RedlineTracker.ts\<close>)\<close>

text \<open>
  The module variables are the state. A time is \<^verbatim>\<open>Date.now()\<close>, a whole number of
  milliseconds far below \<open>2\<^sup>5\<^sup>3\<close>, where the subtraction of two times is exact. The
  identifier of an alert is its counter and \<^verbatim>\<open>triggered_at\<close> the time it prints.
\<close>

definition REDLINE_THRESHOLD :: jsnum where
  "REDLINE_THRESHOLD = dec (95 / 100)"

definition REDLINE_DURATION_MS :: int where
  "REDLINE_DURATION_MS = 2 * 60 * 1000"

record RedlineState =
  redlineStartTime :: "int option"
  lastSampleTime :: "int option"
  alertCounter :: nat

record RedlineAlert =
  alert_id :: nat
  triggered_at :: int
  hr_avg :: jsnum
  hr_max_pct :: jsnum
  duration_seconds :: jsnum
  recovery_tip :: string
  resolved_at :: "string option"

record RedlineStatus =
  isInRedline :: bool
  secondsInRedline :: jsnum

definition tip_critical :: string where
  "tip_critical =
     ''CRITICAL: Walk immediately. Slow deep breaths for 60 seconds before resuming any effort.''"

definition tip_extended :: string where
  "tip_extended =
     ''Extended redline detected. Walk the first 200m of the next run. Sip water at the next opportunity.''"

definition tip_standard :: string where
  "tip_standard =
     ''HR sustained above 95% for 2+ minutes. Reduce effort by 10% on the next segment. Nasal breathing to bring HR down.''"

definition getRecoveryTip :: "jsnum \<Rightarrow> jsnum \<Rightarrow> string" where
  "getRecoveryTip hrPct durationSec =
     (if js_ge hrPct (dec (98 / 100)) then tip_critical
      else if js_gt durationSec (Num 180) then tip_extended
      else tip_standard)"

definition recordHRSample ::
  "jsnum option \<Rightarrow> jsnum option \<Rightarrow> int \<Rightarrow> RedlineState \<Rightarrow> RedlineAlert option \<times> RedlineState" where
  "recordHRSample currentHR maxHR now st =
     (let st1 = st\<lparr>lastSampleTime := Some now\<rparr>
      in case (currentHR, maxHR) of
           (Some hr, Some mx) \<Rightarrow>
             if js_le mx (Num 0) then (None, st1\<lparr>redlineStartTime := None\<rparr>)
             else
               (let hrPct = js_div hr mx
                in if js_lt hrPct REDLINE_THRESHOLD then (None, st1\<lparr>redlineStartTime := None\<rparr>)
                   else
                     (case redlineStartTime st of
                        None \<Rightarrow> (None, st1\<lparr>redlineStartTime := Some now\<rparr>)
                      | Some start \<Rightarrow>
                          (let durationMs = now - start
                           in if REDLINE_DURATION_MS \<le> durationMs
                              then
                                (let durationSec =
                                       Math_round (js_div (Num (of_int durationMs)) (Num 1000));
                                     counter = alertCounter st + 1
                                 in (Some \<lparr>alert_id = counter,
                                           triggered_at = start,
                                           hr_avg = hr,
                                           hr_max_pct = hrPct,
                                           duration_seconds = durationSec,
                                           recovery_tip = getRecoveryTip hrPct durationSec,
                                           resolved_at = None\<rparr>,
                                     st1\<lparr>redlineStartTime := None, alertCounter := counter\<rparr>))
                              else (None, st1))))
         | _ \<Rightarrow> (None, st1\<lparr>redlineStartTime := None\<rparr>))"

definition getRedlineStatus :: "int \<Rightarrow> RedlineState \<Rightarrow> RedlineStatus" where
  "getRedlineStatus now st =
     (case redlineStartTime st of
        None \<Rightarrow> \<lparr>isInRedline = False, secondsInRedline = Num 0\<rparr>
      | Some start \<Rightarrow>
          \<lparr>isInRedline = True,
           secondsInRedline = Math_round (js_div (Num (of_int (now - start))) (Num 1000))\<rparr>)"

definition resetRedlineTracker :: "RedlineState \<Rightarrow> RedlineState" where
  "resetRedlineTracker st = st\<lparr>redlineStartTime := None, lastSampleTime := None\<rparr>"

definition initial_redline :: RedlineState where
  \<comment> \<open>the module as loaded\<close>
  "initial_redline = \<lparr>redlineStartTime = None, lastSampleTime = None, alertCounter = 0\<rparr>"

type_synonym HRSample = "jsnum option \<times> jsnum option \<times> int"

fun record_samples :: "RedlineState \<Rightarrow> HRSample list \<Rightarrow> RedlineAlert list \<times> RedlineState" where
  \<comment> \<open>a stream of samples: the alerts it returns, in order, and the state it leaves\<close>
  "record_samples st [] = ([], st)"
| "record_samples st ((hr, mx, now) # rest) =
     (let (a, st') = recordHRSample hr mx now st;
          (as, st'') = record_samples st' rest
      in ((case a of None \<Rightarrow> [] | Some x \<Rightarrow> [x]) @ as, st''))"

definition in_redline :: "jsnum option \<Rightarrow> jsnum option \<Rightarrow> bool" where
  \<comment> \<open>both values present, a positive maximum, and the ratio at or above the threshold\<close>
  "in_redline currentHR maxHR =
     (case (currentHR, maxHR) of
        (Some hr, Some mx) \<Rightarrow> js_gt mx (Num 0) \<and> js_ge (js_div hr mx) REDLINE_THRESHOLD
      | _ \<Rightarrow> False)"

definition below_redline :: "jsnum option \<Rightarrow> jsnum option \<Rightarrow> bool" where
  \<comment> \<open>a value missing, or the ratio under the threshold\<close>
  "below_redline currentHR maxHR =
     (case (currentHR, maxHR) of
        (Some hr, Some mx) \<Rightarrow> js_lt (js_div hr mx) REDLINE_THRESHOLD
      | _ \<Rightarrow> True)"

definition sample_time :: "HRSample \<Rightarrow> int" where
  "sample_time x = snd (snd x)"

definition excursion :: "HRSample list \<Rightarrow> bool" where
  \<comment> \<open>consecutive samples, every one in the redline zone, in the order of their times\<close>
  "excursion xs = (list_all (\<lambda>x. in_redline (fst x) (fst (snd x))) xs \<and> sorted (map sample_time xs))"

definition excursion_span :: "HRSample list \<Rightarrow> int" where
  \<comment> \<open>the time from the first sample to the last, in milliseconds\<close>
  "excursion_span xs = sample_time (last xs) - sample_time (hd xs)"

section \<open>The coach engine (\<^verbatim>\<open>lib/CoachEngine.ts\<close>)\<close>

text \<open>
  The state of the coach has two fields with the names of \<open>Participant\<close> fields; they
  carry the suffix \<open>_rs\<close> here. A message or context that prints a number is the
  constructor holding that number.

  \<^verbatim>\<open>SEGMENT_TIPS\<close> is a plain object and \<^verbatim>\<open>currentSegmentType\<close> any string, so the look-up
  of the default rule also finds the members that every object inherits from
  \<^verbatim>\<open>Object.prototype\<close>. Each of them is a function or an object, which \<^verbatim>\<open>||\<close> keeps; the
  message is then that member, \<open>InheritedMember\<close> of its name, and not a string. The nine
  tips of the table are non-empty strings, which \<^verbatim>\<open>||\<close> keeps as well.
\<close>

record RaceState =
  currentSegmentIndex_rs :: jsnum
  currentSegmentType :: string
  elapsedSeconds_rs :: jsnum
  targetElapsedSeconds :: jsnum
  currentHR :: "jsnum option"
  maxHR :: "jsnum option"
  competitorDelta :: "jsnum option"

datatype CoachPriority = critical_priority | warning | info

datatype CoachMessage =
  Message string
  | AheadHoldBack jsnum
  | BehindSteady jsnum
  | CompetitorAhead jsnum
  | InheritedMember string

datatype CoachContext =
  Context string
  | HRAtPercent jsnum
  | SegmentOf16 jsnum

record CoachTip =
  message :: CoachMessage
  priority :: CoachPriority
  context_tip :: CoachContext

definition SEGMENT_TIPS :: "(string \<times> string) list" where
  "SEGMENT_TIPS =
     [(''RUN'', ''Steady rhythm, controlled breathing.''),
      (''SKI_ERG'', ''Powerful pulls, pace the first 500m.''),
      (''SLED_PUSH'', ''Stay low, drive through your legs.''),
      (''SLED_PULL'', ''Hand over hand rhythm, steady pace.''),
      (''BURPEE_BROAD_JUMP'', ''Controlled jumps, land soft.''),
      (''ROW'', ''Strong drive, quick recovery.''),
      (''FARMERS_CARRY'', ''Grip and go, short quick steps.''),
      (''SANDBAG_LUNGES'', ''Step through, keep bag stable.''),
      (''WALL_BALLS'', ''Catch and throw rhythm, break at 10s.'')]"

definition Object_prototype_members :: "string list" where
  \<comment> \<open>the property names of \<^verbatim>\<open>Object.prototype\<close> (ECMAScript with its Annex B)\<close>
  "Object_prototype_members =
     [''constructor'', ''hasOwnProperty'', ''isPrototypeOf'', ''propertyIsEnumerable'',
      ''toLocaleString'', ''toString'', ''valueOf'', ''__proto__'', ''__defineGetter__'',
      ''__defineSetter__'', ''__lookupGetter__'', ''__lookupSetter__'']"

definition segment_tip :: "string \<Rightarrow> CoachMessage" where
  \<comment> \<open>\<^verbatim>\<open>SEGMENT_TIPS[currentSegmentType] || 'Stay focused, keep moving.'\<close>\<close>
  "segment_tip ty =
     (case map_of SEGMENT_TIPS ty of
        Some tip \<Rightarrow> Message tip
      | None \<Rightarrow> if ty \<in> set Object_prototype_members then InheritedMember ty
                else Message ''Stay focused, keep moving.'')"

fun Math_abs :: "jsnum \<Rightarrow> jsnum" where
  "Math_abs (Num x) = Num \<bar>x\<bar>"
| "Math_abs PosInf = PosInf"
| "Math_abs NegInf = PosInf"
| "Math_abs NaN = NaN"

definition hrPct_of :: "RaceState \<Rightarrow> jsnum" where
  \<comment> \<open>\<^verbatim>\<open>currentHR && maxHR ? currentHR / maxHR : 0\<close>\<close>
  "hrPct_of st =
     (case (currentHR st, maxHR st) of
        (Some hr, Some mx) \<Rightarrow> if js_truthy hr \<and> js_truthy mx then js_div hr mx else Num 0
      | _ \<Rightarrow> Num 0)"

definition delta_of :: "RaceState \<Rightarrow> jsnum" where
  "delta_of st = js_sub (elapsedSeconds_rs st) (targetElapsedSeconds st)"

definition isEarlyRace :: "RaceState \<Rightarrow> bool" where
  "isEarlyRace st = js_lt (currentSegmentIndex_rs st) (Num 6)"

definition evaluate :: "RaceState \<Rightarrow> CoachTip" where
  "evaluate st =
     (let hrPct = hrPct_of st; delta = delta_of st
      in if js_ge hrPct (dec (93 / 100))
         then \<lparr>message = Message ''HR critical -- walk first 100m after station.'',
               priority = critical_priority,
               context_tip = HRAtPercent (Math_round (js_mul hrPct (Num 100)))\<rparr>
         else if js_lt delta (Num (- 30)) \<and> isEarlyRace st
         then \<lparr>message = AheadHoldBack (Math_abs (Math_round delta)),
               priority = warning,
               context_tip = Context ''Pacing too fast early''\<rparr>
         else if js_gt delta (Num 20)
         then \<lparr>message = BehindSteady (Math_round delta),
               priority = warning,
               context_tip = Context ''Behind target pace''\<rparr>
         else if js_ge hrPct (dec (85 / 100)) \<and> js_lt hrPct (dec (93 / 100))
         then \<lparr>message = Message ''HR elevated. Controlled breathing.'',
               priority = info,
               context_tip = HRAtPercent (Math_round (js_mul hrPct (Num 100)))\<rparr>
         else if (case competitorDelta st of None \<Rightarrow> False | Some d \<Rightarrow> js_gt d (Num 15))
         then \<lparr>message = CompetitorAhead (Math_round (the (competitorDelta st))),
               priority = info,
               context_tip = Context ''Competitor gap''\<rparr>
         else \<lparr>message = segment_tip (currentSegmentType st),
               priority = info,
               context_tip = SegmentOf16 (js_add (currentSegmentIndex_rs st) (Num 1))\<rparr>)"

text \<open>
  The rules as the specification numbers them, to compare \<open>evaluate\<close> with. They are
  written on the fields of the state as they are, with none of the intermediate values
  of \<open>evaluate\<close>. The heart rate as a share of the maximum is the quotient
  \<^verbatim>\<open>currentHR / maxHR\<close> of the two fields; a field that is \<^verbatim>\<open>null\<close> is the number
  \<^verbatim>\<open>0\<close> in a quotient. An athlete is ahead of the schedule by the target time minus the
  elapsed time and behind it by the elapsed time minus the target time.
\<close>

definition ToNumber :: "jsnum option \<Rightarrow> jsnum" where
  \<comment> \<open>the number that an arithmetic operator reads in a field\<close>
  "ToNumber v = (case v of None \<Rightarrow> Num 0 | Some x \<Rightarrow> x)"

definition heart_rate_ratio :: "RaceState \<Rightarrow> jsnum" where
  "heart_rate_ratio st = js_div (ToNumber (currentHR st)) (ToNumber (maxHR st))"

definition seconds_ahead :: "RaceState \<Rightarrow> jsnum" where
  "seconds_ahead st = js_sub (targetElapsedSeconds st) (elapsedSeconds_rs st)"

definition seconds_behind :: "RaceState \<Rightarrow> jsnum" where
  "seconds_behind st = js_sub (elapsedSeconds_rs st) (targetElapsedSeconds st)"

definition coach_rule_holds :: "nat \<Rightarrow> RaceState \<Rightarrow> bool" where
  "coach_rule_holds i st =
     (if i = 1 then js_ge (heart_rate_ratio st) (dec (93 / 100))
      else if i = 2
      then js_gt (seconds_ahead st) (Num 30) \<and> js_lt (currentSegmentIndex_rs st) (Num 6)
      else if i = 3 then js_gt (seconds_behind st) (Num 20)
      else if i = 4
      then js_ge (heart_rate_ratio st) (dec (85 / 100))
           \<and> js_lt (heart_rate_ratio st) (dec (93 / 100))
      else if i = 5
      then (case competitorDelta st of None \<Rightarrow> False | Some d \<Rightarrow> js_gt d (Num 15))
      else i = 6)"

definition coach_rule_outcome :: "nat \<Rightarrow> RaceState \<Rightarrow> CoachTip" where
  \<comment> \<open>the tip that the source gives for the rule\<close>
  "coach_rule_outcome i st =
     (if i = 1
      then \<lparr>message = Message ''HR critical -- walk first 100m after station.'',
            priority = critical_priority,
            context_tip = HRAtPercent (Math_round (js_mul (heart_rate_ratio st) (Num 100)))\<rparr>
      else if i = 2
      then \<lparr>message = AheadHoldBack (Math_abs (Math_round (seconds_behind st))),
            priority = warning,
            context_tip = Context ''Pacing too fast early''\<rparr>
      else if i = 3
      then \<lparr>message = BehindSteady (Math_round (seconds_behind st)),
            priority = warning,
            context_tip = Context ''Behind target pace''\<rparr>
      else if i = 4
      then \<lparr>message = Message ''HR elevated. Controlled breathing.'',
            priority = info,
            context_tip = HRAtPercent (Math_round (js_mul (heart_rate_ratio st) (Num 100)))\<rparr>
      else if i = 5
      then \<lparr>message = CompetitorAhead (Math_round (ToNumber (competitorDelta st))),
            priority = info,
            context_tip = Context ''Competitor gap''\<rparr>
      else \<lparr>message = segment_tip (currentSegmentType st),
            priority = info,
            context_tip = SegmentOf16 (js_add (currentSegmentIndex_rs st) (Num 1))\<rparr>)"

section \<open>The race store (\<^verbatim>\<open>store/raceStore.ts\<close>)\<close>



record HyroxRace =
  race_id :: string
  race_date :: "string option"
  race_dateEnd :: "string option"


















section \<open>Scenario inputs\<close>

definition scenario_profile :: AthleteProfile where
  \<comment> \<open>a 25:00 five-kilometre time, sleds manageable, 25 unbroken wall balls\<close>
  "scenario_profile =
     \<lparr>five_k_time_seconds = Num 1500, sled_comfort = manageable, wall_ball_unbroken_max = Num 25\<rparr>"

definition empty_dashboard :: DashboardState where
  \<comment> \<open>the store as created\<close>
  "empty_dashboard = \<lparr>participants = [], isActive = False, splits = []\<rparr>"


definition hot_and_behind :: RaceState where
  \<comment> \<open>heart rate at 96% of the maximum, 40 s behind the plan, a competitor 25 s ahead\<close>
  "hot_and_behind =
     \<lparr>currentSegmentIndex_rs = Num 8, currentSegmentType = ''RUN'', elapsedSeconds_rs = Num 2440,
      targetElapsedSeconds = Num 2400, currentHR = Some (Num 182), maxHR = Some (Num 190),
      competitorDelta = Some (Num 25)\<rparr>"

definition ahead_and_chased :: RaceState where
  \<comment> \<open>no heart rate, 40 s ahead of the plan in the second run, a competitor 25 s ahead\<close>
  "ahead_and_chased =
     \<lparr>currentSegmentIndex_rs = Num 2, currentSegmentType = ''RUN'', elapsedSeconds_rs = Num 500,
      targetElapsedSeconds = Num 540, currentHR = None, maxHR = None,
      competitorDelta = Some (Num 25)\<rparr>"

definition calm_row :: RaceState where
  \<comment> \<open>heart rate at 79% of the maximum, on the plan, no competitor\<close>
  "calm_row =
     \<lparr>currentSegmentIndex_rs = Num 9, currentSegmentType = ''ROW'', elapsedSeconds_rs = Num 2700,
      targetElapsedSeconds = Num 2700, currentHR = Some (Num 150), maxHR = Some (Num 190),
      competitorDelta = None\<rparr>"

definition zero_max_hr :: RaceState where
  \<comment> \<open>the state \<open>hot_and_behind\<close> with a maximum heart rate of \<^verbatim>\<open>0\<close>\<close>
  "zero_max_hr =
     \<lparr>currentSegmentIndex_rs = Num 8, currentSegmentType = ''RUN'', elapsedSeconds_rs = Num 2440,
      targetElapsedSeconds = Num 2400, currentHR = Some (Num 182), maxHR = Some (Num 0),
      competitorDelta = Some (Num 25)\<rparr>"

definition scenario_c_samples :: "HRSample list" where
  \<comment> \<open>a ratio of 0.974, sampled at the start and 125 s later\<close>
  "scenario_c_samples =
     [(Some (Num 487), Some (Num 500), 0), (Some (Num 487), Some (Num 500), 125000)]"

definition long_excursion :: "HRSample list" where
  \<comment> \<open>the same ratio for 250 s, sampled at 0 s, 120 s, 130 s and 250 s\<close>
  "long_excursion =
     [(Some (Num 487), Some (Num 500), 0), (Some (Num 487), Some (Num 500), 120000),
      (Some (Num 487), Some (Num 500), 130000), (Some (Num 487), Some (Num 500), 250000)]"

definition short_excursion :: "HRSample list" where
  \<comment> \<open>the same ratio for 90 s\<close>
  "short_excursion =
     [(Some (Num 487), Some (Num 500), 0), (Some (Num 487), Some (Num 500), 90000)]"

definition malformed_profile :: AthleteProfile where
  \<comment> \<open>no five-kilometre time and a negative wall-ball count\<close>
  "malformed_profile =
     \<lparr>five_k_time_seconds = Num 0, sled_comfort = manageable, wall_ball_unbroken_max = Num (- 5)\<rparr>"


section \<open>Values of the type \<^verbatim>\<open>number\<close>, and positions in range\<close>

definition representable :: "real \<Rightarrow> bool" where
  \<comment> \<open>a real number that is a binary64 value\<close>
  "representable x = (fl x = Num x)"

definition js_number :: "jsnum \<Rightarrow> bool" where
  \<comment> \<open>a value of the type \<^verbatim>\<open>number\<close>\<close>
  "js_number v = (case v of Num x \<Rightarrow> representable x | _ \<Rightarrow> True)"

definition start_position :: TrackPosition where
  "start_position =
     \<lparr>stationIndex = Num 0, lapFraction = Num 0, continuousPosition = Num 0,
      isFinished = False, currentActivity = ''Run 1''\<rparr>"

definition finished_position :: TrackPosition where
  "finished_position =
     \<lparr>stationIndex = Num 7, lapFraction = Num 1, continuousPosition = Num 8,
      isFinished = True, currentActivity = ''Finished''\<rparr>"

definition position_in_range :: "TrackPosition \<Rightarrow> bool" where
  \<comment> \<open>a station index from 0 to 7, a position from 0 to 8, and an activity that is a
     name of the table, \<^verbatim>\<open>Finished\<close> or \<^verbatim>\<open>Unknown\<close>\<close>
  "position_in_range p =
     (js_le (Num 0) (stationIndex p) \<and> js_le (stationIndex p) (Num 7)
      \<and> js_le (Num 0) (continuousPosition p) \<and> js_le (continuousPosition p) (Num 8)
      \<and> (currentActivity p \<in> set activity_names
          \<or> currentActivity p = ''Finished'' \<or> currentActivity p = ''Unknown''))"

section \<open>Invariants\<close>



definition tracker_inv :: "DashboardState \<Rightarrow> bool" where
  \<comment> \<open>what \<open>initLiveRace\<close> establishes and \<open>advanceSegment\<close> and \<open>undoSegment\<close> keep\<close>
  "tracker_inv s =
     (\<exists>user. participants s = [user]
        \<and> 0 \<le> segmentsCompleted user \<and> segmentsCompleted user \<le> 16
        \<and> int (length (splits s)) = segmentsCompleted user
        \<and> currentSegmentIndex user = min (segmentsCompleted user) 15
        \<and> lastStationName user = at_index SEGMENT_NAMES (min (segmentsCompleted user) 15)
        \<and> elapsedSeconds user =
            (if splits s = [] then 0 else elapsedAtCompletion (last (splits s))))"


section \<open>Evaluating the arithmetic\<close>

lemmas fl_eval = fl_def exponent_of_def pow2_def round_half_even_def bitlen.simps Let_def

lemma scenario_baseRunTime: "baseRunTime scenario_profile = Num 330"
  by (simp add: baseRunTime_def scenario_profile_def dec_def fl_eval)

lemma scenario_tier: "tier_of scenario_profile = intermediate"
  by (simp add: tier_of_def scenario_profile_def js_gt_def)

text \<open>
  The fourth run is \<^verbatim>\<open>Math.round(330 * (1 + 3 * 0.05))\<close>. In binary64 \<^verbatim>\<open>3 * 0.05\<close> is
  \<^verbatim>\<open>0.15000000000000002\<close>, the sum rounds to \<^verbatim>\<open>1.15\<close> (just under \<open>23/20\<close>), and the
  product to \<^verbatim>\<open>379.49999999999994\<close>: the run is 379 seconds, not 380.
\<close>

lemma degradation_4: "degradation 4 = Num (5179139571476070 / 4503599627370496)"
  by (simp add: degradation_def dec_def fl_eval)

lemma scenario_run_4: "Math_round (js_mul (Num 330) (degradation 4)) = Num 379"
  by (simp add: degradation_4 fl_eval)

lemma scenario_loop: "total_loop scenario_profile (Num 0) 0 (segments (Num 330)) = Num 5053"
  by (simp add: segments_def degradation_def station_time_def scenario_profile_def dec_def
      js_gt_def fl_eval)

lemma scenario_total: "predictedTotal scenario_profile = Num 5473"
  by (simp add: predictedTotal_def scenario_baseRunTime scenario_loop scenario_tier
      roxzoneTime_def fl_eval)

lemma scenario_conservative: "Math_round (js_mul (Num 5473) (dec (21 / 20))) = Num 5747"
  by (simp add: dec_def fl_eval)

lemma scenario_aggressive: "Math_round (js_mul (Num 5473) (dec (19 / 20))) = Num 5199"
  by (simp add: dec_def fl_eval)

section \<open>Rounding keeps lower bounds\<close>

lemma bitlen_pos: "0 < m \<Longrightarrow> 0 < bitlen m"
  by (subst bitlen.simps) simp

lemma bitlen_lower: "0 < m \<Longrightarrow> 2 ^ (bitlen m - 1) \<le> m"
proof (induction m rule: bitlen.induct)
  case (1 n)
  show ?case
  proof (cases "n div 2 = 0")
    case True
    then have "bitlen (n div 2) = 0" by (subst bitlen.simps) simp
    then have "bitlen n = 1" using "1.prems" by (subst bitlen.simps) simp
    then show ?thesis using "1.prems" by simp
  next
    case False
    then have p: "0 < n div 2" by simp
    have ih: "2 ^ (bitlen (n div 2) - 1) \<le> n div 2"
      using "1.IH" "1.prems" p by simp
    have b: "bitlen n = Suc (bitlen (n div 2))" using "1.prems" by (subst bitlen.simps) simp
    have "0 < bitlen (n div 2)" using p by (rule bitlen_pos)
    then have "(2::nat) ^ (bitlen n - 1) = 2 * 2 ^ (bitlen (n div 2) - 1)"
      using b by (cases "bitlen (n div 2)") simp_all
    also have "\<dots> \<le> 2 * (n div 2)" using ih by simp
    also have "\<dots> \<le> n" by simp
    finally show ?thesis .
  qed
qed

lemma pow2_pos: "0 < pow2 k"
  by (simp add: pow2_def)

lemma pow2_nonneg [simp]: "0 \<le> pow2 k"
  using pow2_pos [of k] by simp

lemma round_half_even_ge: "of_int N \<le> y \<Longrightarrow> N \<le> round_half_even y"
proof -
  assume "of_int N \<le> y"
  then have "N \<le> \<lfloor>y\<rfloor>" by (simp add: le_floor_iff)
  then show ?thesis by (simp add: round_half_even_def Let_def)
qed

lemma round_half_even_le: "y \<le> of_int N \<Longrightarrow> round_half_even y \<le> N"
proof -
  assume a: "y \<le> of_int N"
  then have f: "\<lfloor>y\<rfloor> \<le> N" by (simp add: floor_le_iff)
  show ?thesis
  proof (cases "y = of_int \<lfloor>y\<rfloor>")
    case True
    then have "y - of_int \<lfloor>y\<rfloor> = 0" by simp
    then show ?thesis using f by (simp add: round_half_even_def Let_def)
  next
    case False
    then have "of_int \<lfloor>y\<rfloor> < y" using of_int_floor_le [of y] by linarith
    then have "real_of_int \<lfloor>y\<rfloor> < of_int N" using a by linarith
    then have "\<lfloor>y\<rfloor> < N" by simp
    then show ?thesis by (simp add: round_half_even_def Let_def)
  qed
qed

lemma fl_cases:
  assumes "x \<noteq> 0"
  shows "\<exists>e. e = max (exponent_of x) (- 1022) \<and>
     fl x = (let r = of_int (round_half_even (x / pow2 (e - 52))) * pow2 (e - 52)
             in if 2 ^ 1024 \<le> r then PosInf else if r \<le> - (2 ^ 1024) then NegInf else Num r)"
  using assms by (simp add: fl_def Let_def)

lemma js_ge_Num: "js_ge v (Num a) = (v = PosInf \<or> (\<exists>r. v = Num r \<and> a \<le> r))"
  by (cases v) (auto simp add: js_ge_def js_le_def js_eq_def)

lemma fl_ge_grid:
  \<comment> \<open>rounding does not go below a lower bound that lies on the grid of the result\<close>
  assumes "x \<noteq> 0" and "0 \<le> a" and "a \<le> x"
    and "a = of_int N * pow2 (max (exponent_of x) (- 1022) - 52)"
  shows "js_ge (fl x) (Num a)"
proof -
  let ?q = "pow2 (max (exponent_of x) (- 1022) - 52)"
  let ?r = "of_int (round_half_even (x / ?q)) * ?q"
  have q: "0 < ?q" by (rule pow2_pos)
  have "of_int N \<le> x / ?q" using assms(3,4) q by (simp add: pos_le_divide_eq)
  then have "N \<le> round_half_even (x / ?q)" by (rule round_half_even_ge)
  then have "of_int N * ?q \<le> ?r" using q by simp
  then have ar: "a \<le> ?r" using assms(4) by simp
  then have "\<not> ?r \<le> - (2 ^ 1024)" using assms(2) by (smt (verit) zero_less_power)
  then have "fl x = (if 2 ^ 1024 \<le> ?r then PosInf else Num ?r)"
    using assms(1) by (simp add: fl_def Let_def)
  then show ?thesis using ar by (simp add: js_ge_Num)
qed


lemma js_ge_mono: "js_ge v (Num a) \<Longrightarrow> b \<le> a \<Longrightarrow> js_ge v (Num b)"
  by (auto simp add: js_ge_Num)

lemma exponent_of_ge_1:
  assumes "1 \<le> x"
  shows "exponent_of x = int (bitlen (nat \<lfloor>x\<rfloor>)) - 1"
    and "0 \<le> exponent_of x"
    and "2 ^ nat (exponent_of x) \<le> x"
proof -
  let ?m = "nat \<lfloor>x\<rfloor>"
  show e: "exponent_of x = int (bitlen ?m) - 1"
    using assms by (simp add: exponent_of_def Let_def)
  have m: "0 < ?m" using assms by simp
  then have "0 < bitlen ?m" by (rule bitlen_pos)
  then show "0 \<le> exponent_of x" using e by simp
  have "nat (exponent_of x) = bitlen ?m - 1" using e by simp
  then have "(2::nat) ^ nat (exponent_of x) \<le> ?m" using bitlen_lower [OF m] by simp
  then have "int (2 ^ nat (exponent_of x)) \<le> int ?m" by (simp only: of_nat_le_iff)
  then have "(2::int) ^ nat (exponent_of x) \<le> \<lfloor>x\<rfloor>" using m by simp
  then have "real_of_int (2 ^ nat (exponent_of x)) \<le> x"
    using le_floor_iff [of "2 ^ nat (exponent_of x)" x] by blast
  then show "2 ^ nat (exponent_of x) \<le> x" by simp
qed

lemma fl_ge_int:
  assumes "of_int n \<le> x" and "0 \<le> n" and "n \<le> 2 ^ 53"
  shows "js_ge (fl x) (Num (of_int n))"
proof (cases "x < 1")
  case True
  then have n: "n = 0" using assms(1,2) by linarith
  show ?thesis
  proof (cases "x = 0")
    case True
    then show ?thesis using n by (simp add: fl_def js_ge_Num)
  next
    case False
    have "0 \<le> x" using assms(1) n by simp
    moreover have "(0::real) = of_int 0 * pow2 (max (exponent_of x) (- 1022) - 52)" by simp
    ultimately have "js_ge (fl x) (Num 0)"
      using False fl_ge_grid [of x 0 0] by blast
    then show ?thesis using n by simp
  qed
next
  case False
  then have x1: "1 \<le> x" by simp
  then have x0: "x \<noteq> 0" by simp
  let ?e = "exponent_of x"
  have e0: "0 \<le> ?e" using exponent_of_ge_1(2) [OF x1] .
  then have mx: "max ?e (- 1022) = ?e" by simp
  have n0: "(0::real) \<le> of_int n" using assms(2) by simp
  show ?thesis
  proof (cases "?e \<le> 52")
    case True
    then have q: "pow2 (?e - 52) = 1 / 2 ^ nat (52 - ?e)"
      by (cases "?e = 52") (simp_all add: pow2_def)
    have "real_of_int n = of_int (n * 2 ^ nat (52 - ?e)) * pow2 (max ?e (- 1022) - 52)"
      unfolding mx q by simp
    then show ?thesis by (rule fl_ge_grid [OF x0 n0 assms(1)])
  next
    case False
    then have q: "pow2 (?e - 52) = 2 ^ nat (?e - 52)" by (simp add: pow2_def)
    have "nat ?e = 52 + nat (?e - 52)" using False by simp
    then have p: "(2::real) ^ nat ?e = 2 ^ 52 * 2 ^ nat (?e - 52)"
      by (simp only: power_add)
    have g: "(2::real) ^ nat ?e = of_int (2 ^ 52) * pow2 (max ?e (- 1022) - 52)"
      unfolding mx q p by simp
    have p0: "(0::real) \<le> 2 ^ nat ?e" by simp
    have "js_ge (fl x) (Num (2 ^ nat ?e))"
      by (rule fl_ge_grid [OF x0 p0 exponent_of_ge_1(3) [OF x1] g])
    moreover have "(2::real) ^ 53 \<le> 2 ^ nat ?e"
      using False by (intro power_increasing) simp_all
    moreover have "real_of_int n \<le> 2 ^ 53"
      using assms(3) by (metis of_int_le_iff of_int_numeral of_int_power)
    ultimately show ?thesis using js_ge_mono [of "fl x" "2 ^ nat ?e" "of_int n"] by linarith
  qed
qed

















section \<open>The simulation engine: results\<close>

text \<open>
  C1, as the code has it. For the scenario profile in prediction mode the tier is
  intermediate, and the overhead added for it is 420 seconds: only the elite and the
  advanced tier have a smaller one. The predicted total is 5473 seconds, the
  conservative time 5747, the aggressive time 5199; the danger runs are 5 and 8, the
  limiter is pacing and the blow-up probability is the number \<^verbatim>\<open>0.3\<close>.
\<close>

theorem scenario_a_prediction:
  "estimated_tier (generateMockSimulation scenario_profile None) = intermediate
   \<and> total_roxzone_time_seconds (generateMockSimulation scenario_profile None) = Num 420
   \<and> likely_seconds (predictions (generateMockSimulation scenario_profile None)) = Num 5473
   \<and> conservative_seconds (predictions (generateMockSimulation scenario_profile None)) = Num 5747
   \<and> aggressive_seconds (predictions (generateMockSimulation scenario_profile None)) = Num 5199
   \<and> danger_runs (risk_analysis (generateMockSimulation scenario_profile None)) = [5, 8]
   \<and> primary_limiter (risk_analysis (generateMockSimulation scenario_profile None)) = pacing
   \<and> blow_up_probability (risk_analysis (generateMockSimulation scenario_profile None)) = dec (3 / 10)"
  by (simp add: generateMockSimulation_def Let_def isGoalMode_def scenario_tier scenario_total
      scenario_conservative scenario_aggressive roxzoneTime_def split: prod.splits)
     (simp add: scenario_profile_def js_gt_def)

text \<open>
  C1, as stated: the result for the scenario profile does not have the predicted total
  5354, the conservative time 5622 and the aggressive time 5086 together with the other
  values of the claim.
\<close>

theorem scenario_a_counterexample:
  "\<not> (estimated_tier (generateMockSimulation scenario_profile None) = intermediate
      \<and> likely_seconds (predictions (generateMockSimulation scenario_profile None)) = Num 5354
      \<and> conservative_seconds (predictions (generateMockSimulation scenario_profile None)) = Num 5622
      \<and> aggressive_seconds (predictions (generateMockSimulation scenario_profile None)) = Num 5086
      \<and> danger_runs (risk_analysis (generateMockSimulation scenario_profile None)) = [5, 8]
      \<and> primary_limiter (risk_analysis (generateMockSimulation scenario_profile None)) = pacing
      \<and> blow_up_probability (risk_analysis (generateMockSimulation scenario_profile None)) = dec (3 / 10))"
  by (simp add: generateMockSimulation_def Let_def isGoalMode_def scenario_total
      split: prod.splits)

text \<open>
  C2. In goal mode, that is for a goal time that is a number greater than zero, the
  conservative, the likely and the aggressive prediction all equal the goal time, for
  every profile.
\<close>

theorem goal_mode_predictions:
  assumes "js_gt g (Num 0)"
  shows "conservative_seconds (predictions (generateMockSimulation profile (Some g))) = g
       \<and> likely_seconds (predictions (generateMockSimulation profile (Some g))) = g
       \<and> aggressive_seconds (predictions (generateMockSimulation profile (Some g))) = g
       \<and> goal_time_seconds (generateMockSimulation profile (Some g)) = Some g
       \<and> mode (generateMockSimulation profile (Some g)) = goal"
  using assms
  by (simp add: generateMockSimulation_def Let_def isGoalMode_def split: prod.splits)

theorem goal_mode_predictions_witness:
  "js_gt (Num 4800) (Num 0)
   \<and> conservative_seconds (predictions (generateMockSimulation scenario_profile (Some (Num 4800)))) = Num 4800
   \<and> likely_seconds (predictions (generateMockSimulation scenario_profile (Some (Num 4800)))) = Num 4800
   \<and> aggressive_seconds (predictions (generateMockSimulation scenario_profile (Some (Num 4800)))) = Num 4800"
  using goal_mode_predictions [of "Num 4800" scenario_profile]
  by (simp add: js_gt_def)


lemma length_plan_loop:
  "length (fst (plan_loop profile gm sf feas idx runNum tr ts segs)) = length segs"
  by (induction segs arbitrary: idx runNum tr ts) (auto simp add: Let_def split_def)

lemma malformed_total: "predictedTotal malformed_profile = Num 2238"
  by (simp add: predictedTotal_def baseRunTime_def tier_of_def roxzoneTime_def segments_def
      degradation_def station_time_def malformed_profile_def dec_def js_gt_def fl_eval)









text \<open>
  C4, as the code has it. The simulation does not validate the profile: for every
  profile and every goal \<open>runSimulation\<close> returns a simulation, and the simulation has 16
  segment plans and the tier computed from the five-kilometre time.
\<close>

theorem simulation_never_rejects:
  "runSimulation post profile g = Inr \<lparr>simulation = generateMockSimulation profile g\<rparr>
   \<and> length (segment_plans (generateMockSimulation profile g)) = 16
   \<and> estimated_tier (generateMockSimulation profile g) = tier_of profile"
  by (simp add: runSimulation_def USE_MOCK_def generateMockSimulation_def Let_def split_def
      length_plan_loop segments_def)

text \<open>
  C4, as stated: a profile with the five-kilometre time 0 and the wall-ball count \<open>-5\<close>
  is not rejected; the simulation is returned, with a predicted total of 2238 seconds.
\<close>

theorem malformed_profile_counterexample:
  "js_le (five_k_time_seconds malformed_profile) (Num 0)
   \<and> js_lt (wall_ball_unbroken_max malformed_profile) (Num 0)
   \<and> runSimulation no_backend malformed_profile None
       = Inr \<lparr>simulation = generateMockSimulation malformed_profile None\<rparr>
   \<and> likely_seconds (predictions (generateMockSimulation malformed_profile None)) = Num 2238"
  by (simp add: runSimulation_def USE_MOCK_def generateMockSimulation_def Let_def split_def
      isGoalMode_def malformed_total)
     (simp add: malformed_profile_def js_le_def js_eq_def)

section \<open>The dashboard store: results\<close>

lemma tracker_inv_init: "tracker_inv (initLiveRace displayName s)"
  by (simp add: tracker_inv_def initLiveRace_def)

lemma tracker_inv_advance:
  assumes "tracker_inv s"
  shows "tracker_inv (advanceSegment t s)"
proof -
  from assms obtain user where u: "participants s = [user]"
    and r: "0 \<le> segmentsCompleted user" "segmentsCompleted user \<le> 16"
      "int (length (splits s)) = segmentsCompleted user"
      "currentSegmentIndex user = min (segmentsCompleted user) 15"
      "lastStationName user = at_index SEGMENT_NAMES (min (segmentsCompleted user) 15)"
      "elapsedSeconds user = (if splits s = [] then 0 else elapsedAtCompletion (last (splits s)))"
    unfolding tracker_inv_def by blast
  show ?thesis
  proof (cases "16 \<le> segmentsCompleted user")
    case True
    then have "advanceSegment t s = s" by (simp add: advanceSegment_def u)
    then show ?thesis using assms by simp
  next
    case False
    then show ?thesis using r
      by (simp add: advanceSegment_def u tracker_inv_def Let_def)
  qed
qed

lemma tracker_inv_undo:
  assumes "tracker_inv s"
  shows "tracker_inv (undoSegment s)"
proof -
  from assms obtain user where u: "participants s = [user]"
    and r: "0 \<le> segmentsCompleted user" "segmentsCompleted user \<le> 16"
      "int (length (splits s)) = segmentsCompleted user"
      "currentSegmentIndex user = min (segmentsCompleted user) 15"
      "lastStationName user = at_index SEGMENT_NAMES (min (segmentsCompleted user) 15)"
      "elapsedSeconds user = (if splits s = [] then 0 else elapsedAtCompletion (last (splits s)))"
    unfolding tracker_inv_def by blast
  show ?thesis
  proof (cases "segmentsCompleted user \<le> 0 \<or> length (splits s) = 0")
    case True
    then have "undoSegment s = s" by (auto simp add: undoSegment_def u)
    then show ?thesis using assms by simp
  next
    case False
    then show ?thesis using r
      by (auto simp add: undoSegment_def u tracker_inv_def Let_def)
  qed
qed

lemma tracker_inv_calls: "tracker_inv s \<Longrightarrow> tracker_inv (tracker_calls calls s)"
  unfolding tracker_calls_def
proof (induction calls arbitrary: s)
  case Nil
  then show ?case by simp
next
  case (Cons c calls)
  have "tracker_inv (tracker_call s c)"
    using Cons.prems by (cases c) (simp_all add: tracker_inv_advance tracker_inv_undo)
  then show ?case using Cons.IH by simp
qed

lemma undo_after_advance:
  assumes "tracker_inv s" and "participants s = [user]" and "segmentsCompleted user < 16"
  shows "undoSegment (advanceSegment t s) = s"
  using assms
  by (auto simp add: tracker_inv_def advanceSegment_def undoSegment_def Let_def)

text \<open>
  C5. After any sequence of \<open>advanceSegment\<close> and \<open>undoSegment\<close> calls on the state that
  \<open>initLiveRace\<close> sets up, the store holds one participant whose \<open>segmentsCompleted\<close> is
  between 0 and 16; and if it is below 16, \<open>advanceSegment\<close> followed at once by
  \<open>undoSegment\<close> gives back the whole state: the participant and the list of splits.
\<close>

theorem tracker_bounds_and_undo:
  "\<exists>user. participants (tracker_calls calls (initLiveRace displayName s0)) = [user]
     \<and> 0 \<le> segmentsCompleted user \<and> segmentsCompleted user \<le> 16
     \<and> (segmentsCompleted user < 16 \<longrightarrow>
          undoSegment (advanceSegment t (tracker_calls calls (initLiveRace displayName s0)))
            = tracker_calls calls (initLiveRace displayName s0))"
proof -
  let ?s = "tracker_calls calls (initLiveRace displayName s0)"
  have inv: "tracker_inv ?s"
    by (rule tracker_inv_calls) (rule tracker_inv_init)
  then obtain user where u: "participants ?s = [user]"
    and b: "0 \<le> segmentsCompleted user" "segmentsCompleted user \<le> 16"
    unfolding tracker_inv_def by blast
  have "segmentsCompleted user < 16 \<longrightarrow> undoSegment (advanceSegment t ?s) = ?s"
    using undo_after_advance [OF inv u] by blast
  with u b show ?thesis by blast
qed

theorem tracker_bounds_and_undo_witness:
  "segmentsCompleted
     (hd (participants
        (tracker_calls [AdvanceSegment 300, AdvanceSegment 560, UndoSegment]
           (initLiveRace ''Ana'' empty_dashboard)))) = 1
   \<and> undoSegment (advanceSegment 900
        (tracker_calls [AdvanceSegment 300, AdvanceSegment 560, UndoSegment]
           (initLiveRace ''Ana'' empty_dashboard)))
     = tracker_calls [AdvanceSegment 300, AdvanceSegment 560, UndoSegment]
         (initLiveRace ''Ana'' empty_dashboard)"
proof -
  let ?s = "tracker_calls [AdvanceSegment 300, AdvanceSegment 560, UndoSegment]
              (initLiveRace ''Ana'' empty_dashboard)"
  have c: "segmentsCompleted (hd (participants ?s)) = 1"
    by (simp add: tracker_calls_def advanceSegment_def undoSegment_def initLiveRace_def
        empty_dashboard_def Let_def)
  from tracker_bounds_and_undo [of "[AdvanceSegment 300, AdvanceSegment 560, UndoSegment]"
      "''Ana''" empty_dashboard 900]
  obtain user where u: "participants ?s = [user]"
    and i: "segmentsCompleted user < 16 \<longrightarrow> undoSegment (advanceSegment 900 ?s) = ?s"
    by blast
  from u c have "segmentsCompleted user = 1" by simp
  with i c show ?thesis by simp
qed

text \<open>
  The tick of the timer is outside the calls above. \<open>updateElapsed\<close> overwrites
  \<open>elapsedSeconds\<close> without recording a split, and \<open>undoSegment\<close> rolls \<open>elapsedSeconds\<close>
  back to the last split, or to 0: after a tick at 100 s, an advance and an undo leave
  \<open>elapsedSeconds\<close> at 0.
\<close>

lemma undo_after_tick:
  "map elapsedSeconds
     (participants (updateElapsed 100 (initLiveRace ''Ana'' empty_dashboard))) = [100]
   \<and> map elapsedSeconds
       (participants (undoSegment (advanceSegment 100
          (updateElapsed 100 (initLiveRace ''Ana'' empty_dashboard))))) = [0]"
  by (simp add: updateElapsed_def advanceSegment_def undoSegment_def initLiveRace_def
      empty_dashboard_def Let_def)

section \<open>The coach engine: results\<close>

text \<open>
  Rounding commutes with the change of sign, so being ahead by more than 30 s is the
  test \<^verbatim>\<open>delta < -30\<close> of the source.
\<close>

lemma round_half_even_neg: "round_half_even (- y) = - round_half_even y"
proof (cases "y \<in> \<int>")
  case True
  then obtain k :: int where "y = of_int k" by (auto elim: Ints_cases)
  then show ?thesis by (simp add: round_half_even_def)
next
  case False
  have ne: "y \<noteq> of_int \<lfloor>y\<rfloor>"
  proof
    assume "y = of_int \<lfloor>y\<rfloor>"
    then have "y \<in> \<int>" by (metis Ints_of_int)
    with False show False by simp
  qed
  have "\<lceil>y\<rceil> = \<lfloor>y\<rfloor> + 1" using ne by (simp add: ceiling_altdef)
  then have f: "\<lfloor>- y\<rfloor> = - \<lfloor>y\<rfloor> - 1" by (simp add: ceiling_def)
  have "of_int \<lfloor>y\<rfloor> \<le> y" "y < of_int \<lfloor>y\<rfloor> + 1" by linarith+
  with ne have d: "0 < y - of_int \<lfloor>y\<rfloor>" "y - of_int \<lfloor>y\<rfloor> < 1" by linarith+
  show ?thesis using d unfolding round_half_even_def Let_def f
    by (auto simp add: algebra_simps)
qed

lemma exponent_of_neg: "exponent_of (- x) = exponent_of x"
  by (simp add: exponent_of_def)

lemma fl_neg: "fl (- x) = js_neg (fl x)"
  by (simp add: fl_def exponent_of_neg round_half_even_neg Let_def)

lemma js_sub_swap: "js_sub a b = js_neg (js_sub b a)"
proof (cases a; cases b)
  fix x y assume "a = Num x" "b = Num y"
  then show ?thesis using fl_neg [of "y - x"] by (simp add: js_sub_def)
qed (simp_all add: js_sub_def)

lemma js_gt_neg: "js_gt (js_neg d) (Num 30) = js_lt d (Num (- 30))"
  by (cases d) (auto simp add: js_gt_def)

text \<open>
  The heart-rate ratio of \<open>evaluate\<close> is the quotient of the two fields only when both
  are neither \<^verbatim>\<open>null\<close>, \<^verbatim>\<open>0\<close> nor \<^verbatim>\<open>NaN\<close>, and \<^verbatim>\<open>0\<close> otherwise. The two agree on
  every heart-rate rule unless a current heart rate comes with a maximum that is \<^verbatim>\<open>0\<close>
  or missing.
\<close>

lemma js_lt_NaN_right [simp]: "js_lt a NaN = False"
  by (cases a) simp_all

lemma dec_93: "dec (93 / 100) = Num (8376695306909123 / 9007199254740992)"
  by (simp add: dec_def fl_eval)

lemma dec_85: "dec (17 / 20) = Num (7656119366529843 / 9007199254740992)"
  by (simp add: dec_def fl_eval)

lemma js_ge_93_85: "js_ge x (dec (93 / 100)) \<Longrightarrow> js_ge x (dec (85 / 100))"
  by (cases x) (auto simp add: dec_93 dec_85 js_ge_def js_le_def js_eq_def)

lemma js_div_zero_left: "js_div (Num 0) b = Num 0 \<or> js_div (Num 0) b = NaN"
  by (cases b) (auto simp add: inf_of_sign_def fl_def)

lemma hrPct_of_cases:
  assumes "currentHR st = None \<or> (\<exists>mx. maxHR st = Some mx \<and> mx \<noteq> Num 0)"
  shows "hrPct_of st = heart_rate_ratio st
         \<or> hrPct_of st = Num 0 \<and> (heart_rate_ratio st = Num 0 \<or> heart_rate_ratio st = NaN)"
proof (cases "currentHR st")
  case None
  then show ?thesis using js_div_zero_left [of "ToNumber (maxHR st)"]
    by (simp add: hrPct_of_def heart_rate_ratio_def ToNumber_def)
next
  case (Some hr)
  then obtain mx where m: "maxHR st = Some mx" "mx \<noteq> Num 0" using assms by auto
  show ?thesis
  proof (cases "js_truthy hr \<and> js_truthy mx")
    case True
    then show ?thesis using Some m by (simp add: hrPct_of_def heart_rate_ratio_def ToNumber_def)
  next
    case False
    then have "hr = Num 0 \<or> hr = NaN \<or> mx = NaN" using m by (auto simp add: js_truthy_def)
    moreover have "js_div hr NaN = NaN" by (cases hr) simp_all
    ultimately have "js_div hr mx = Num 0 \<or> js_div hr mx = NaN"
      using js_div_zero_left [of mx] by auto
    then show ?thesis using Some m False
      by (simp add: hrPct_of_def heart_rate_ratio_def ToNumber_def)
  qed
qed

lemma hrPct_of_ratio:
  assumes "currentHR st = None \<or> (\<exists>mx. maxHR st = Some mx \<and> mx \<noteq> Num 0)"
    and "js_ge (hrPct_of st) (dec (85 / 100)) \<or> js_ge (heart_rate_ratio st) (dec (85 / 100))"
  shows "hrPct_of st = heart_rate_ratio st"
  using hrPct_of_cases [OF assms(1)] assms(2)
  by (auto simp add: dec_85 js_ge_def js_le_def js_eq_def)

lemma hrPct_of_ge:
  assumes "currentHR st = None \<or> (\<exists>mx. maxHR st = Some mx \<and> mx \<noteq> Num 0)"
  shows "js_ge (hrPct_of st) (dec (85 / 100)) = js_ge (heart_rate_ratio st) (dec (85 / 100))"
    and "js_ge (hrPct_of st) (dec (93 / 100)) = js_ge (heart_rate_ratio st) (dec (93 / 100))"
  using hrPct_of_ratio [OF assms] js_ge_93_85 by metis+

lemma ahead_iff: "js_lt (delta_of st) (Num (- 30)) = js_gt (seconds_ahead st) (Num 30)"
  using js_sub_swap [of "targetElapsedSeconds st" "elapsedSeconds_rs st"]
  by (simp add: delta_of_def seconds_ahead_def js_gt_neg)

lemma evaluate_rules:
  assumes "currentHR st = None \<or> (\<exists>mx. maxHR st = Some mx \<and> mx \<noteq> Num 0)"
  shows "evaluate st =
     (if coach_rule_holds 1 st then coach_rule_outcome 1 st
      else if coach_rule_holds 2 st then coach_rule_outcome 2 st
      else if coach_rule_holds 3 st then coach_rule_outcome 3 st
      else if coach_rule_holds 4 st then coach_rule_outcome 4 st
      else if coach_rule_holds 5 st then coach_rule_outcome 5 st
      else coach_rule_outcome 6 st)"
proof -
  have r1: "coach_rule_holds 1 st = js_ge (hrPct_of st) (dec (93 / 100))"
    using hrPct_of_ge(2) [OF assms] by (simp add: coach_rule_holds_def)
  have r2: "coach_rule_holds 2 st = (js_lt (delta_of st) (Num (- 30)) \<and> isEarlyRace st)"
    by (simp add: coach_rule_holds_def ahead_iff isEarlyRace_def)
  have r3: "coach_rule_holds 3 st = js_gt (delta_of st) (Num 20)"
    by (simp add: coach_rule_holds_def delta_of_def seconds_behind_def)
  have r4: "coach_rule_holds 4 st
      = (js_ge (hrPct_of st) (dec (85 / 100)) \<and> js_lt (hrPct_of st) (dec (93 / 100)))"
    using hrPct_of_ratio [OF assms] by (auto simp add: coach_rule_holds_def)
  have r5: "coach_rule_holds 5 st
      = (case competitorDelta st of None \<Rightarrow> False | Some d \<Rightarrow> js_gt d (Num 15))"
    by (simp add: coach_rule_holds_def)
  have h: "js_ge (hrPct_of st) (dec (85 / 100)) \<Longrightarrow> hrPct_of st = heart_rate_ratio st"
    using hrPct_of_ratio [OF assms] by blast
  have h': "js_ge (hrPct_of st) (dec (93 / 100)) \<Longrightarrow> hrPct_of st = heart_rate_ratio st"
    using h js_ge_93_85 by blast
  have d: "delta_of st = seconds_behind st" by (simp add: delta_of_def seconds_behind_def)
  show ?thesis unfolding r1 r2 r3 r4 r5
    using h h'
    by (auto simp add: evaluate_def coach_rule_outcome_def Let_def d ToNumber_def
        split: option.splits)
qed

text \<open>
  C8. In every race state in which a current heart rate, if there is one, comes with a
  maximum heart rate that is not \<^verbatim>\<open>0\<close>, the coach rules are tried in their order and the
  first that matches wins: if rule \<open>i\<close> holds and no rule with a smaller number does,
  \<open>evaluate\<close> returns the tip of rule \<open>i\<close>, whatever later rules hold as well. In
  particular, whenever \<^verbatim>\<open>currentHR / maxHR\<close> is at least \<^verbatim>\<open>0.93\<close> in such a state, the tip
  is the critical heart-rate tip of rule 1, whatever the pacing delta and the competitor
  gap are.
\<close>

theorem coach_first_match_wins:
  assumes "currentHR st = None \<or> (\<exists>mx. maxHR st = Some mx \<and> mx \<noteq> Num 0)"
  shows "(1 \<le> i \<and> coach_rule_holds i st \<and> (\<forall>j. 1 \<le> j \<and> j < i \<longrightarrow> \<not> coach_rule_holds j st)
            \<longrightarrow> evaluate st = coach_rule_outcome i st)
         \<and> (js_ge (heart_rate_ratio st) (dec (93 / 100))
            \<longrightarrow> evaluate st = coach_rule_outcome 1 st
                \<and> message (evaluate st) = Message ''HR critical -- walk first 100m after station.''
                \<and> priority (evaluate st) = critical_priority)"
proof (intro conjI impI)
  assume a: "1 \<le> i \<and> coach_rule_holds i st \<and> (\<forall>j. 1 \<le> j \<and> j < i \<longrightarrow> \<not> coach_rule_holds j st)"
  then have i: "i \<in> {6, 5, 4, 3, 2, 1}"
    by (auto simp add: coach_rule_holds_def split: if_splits)
  have e: "\<And>j. 1 \<le> j \<Longrightarrow> j < i \<Longrightarrow> \<not> coach_rule_holds j st" using a by blast
  have h: "coach_rule_holds i st" using a by blast
  from i show "evaluate st = coach_rule_outcome i st"
  proof (elim insertE emptyE)
    assume "i = 1"
    then show ?thesis using h by (simp add: evaluate_rules [OF assms])
  next
    assume "i = 2"
    then show ?thesis using h e [of 1] by (simp add: evaluate_rules [OF assms])
  next
    assume "i = 3"
    then show ?thesis using h e [of 1] e [of 2] by (simp add: evaluate_rules [OF assms])
  next
    assume "i = 4"
    then show ?thesis using h e [of 1] e [of 2] e [of 3]
      by (simp add: evaluate_rules [OF assms])
  next
    assume "i = 5"
    then show ?thesis using h e [of 1] e [of 2] e [of 3] e [of 4]
      by (simp add: evaluate_rules [OF assms])
  next
    assume "i = 6"
    then show ?thesis using e [of 1] e [of 2] e [of 3] e [of 4] e [of 5]
      by (simp add: evaluate_rules [OF assms])
  qed
next
  assume "js_ge (heart_rate_ratio st) (dec (93 / 100))"
  then have r: "coach_rule_holds 1 st" by (simp add: coach_rule_holds_def)
  then show t: "evaluate st = coach_rule_outcome 1 st"
    by (simp add: evaluate_rules [OF assms])
  show "message (evaluate st) = Message ''HR critical -- walk first 100m after station.''"
    unfolding t by (simp add: coach_rule_outcome_def)
  show "priority (evaluate st) = critical_priority"
    unfolding t by (simp add: coach_rule_outcome_def)
qed

theorem coach_first_match_wins_witness:
  "coach_rule_holds 1 hot_and_behind \<and> coach_rule_holds 3 hot_and_behind
   \<and> coach_rule_holds 5 hot_and_behind
   \<and> evaluate hot_and_behind =
       \<lparr>message = Message ''HR critical -- walk first 100m after station.'',
        priority = critical_priority, context_tip = HRAtPercent (Num 96)\<rparr>
   \<and> coach_rule_holds 2 ahead_and_chased \<and> coach_rule_holds 5 ahead_and_chased
   \<and> evaluate ahead_and_chased =
       \<lparr>message = AheadHoldBack (Num 40), priority = warning,
        context_tip = Context ''Pacing too fast early''\<rparr>
   \<and> evaluate calm_row =
       \<lparr>message = Message ''Strong drive, quick recovery.'', priority = info,
        context_tip = SegmentOf16 (Num 10)\<rparr>"
proof -
  have q: "heart_rate_ratio hot_and_behind = Num (8627948759804529 / 9007199254740992)"
    by (simp add: heart_rate_ratio_def ToNumber_def hot_and_behind_def fl_eval)
  have r1: "coach_rule_holds 1 hot_and_behind"
    by (simp add: coach_rule_holds_def q dec_93 js_ge_def js_le_def)
  have r3: "coach_rule_holds 3 hot_and_behind"
    by (simp add: coach_rule_holds_def seconds_behind_def js_sub_def js_gt_def
        hot_and_behind_def fl_eval)
  have r5: "coach_rule_holds 5 hot_and_behind"
    by (simp add: coach_rule_holds_def js_gt_def hot_and_behind_def)
  have g1: "currentHR hot_and_behind = None
            \<or> (\<exists>mx. maxHR hot_and_behind = Some mx \<and> mx \<noteq> Num 0)"
    by (simp add: hot_and_behind_def)
  have o1: "coach_rule_outcome 1 hot_and_behind =
       \<lparr>message = Message ''HR critical -- walk first 100m after station.'',
        priority = critical_priority, context_tip = HRAtPercent (Num 96)\<rparr>"
    by (simp add: coach_rule_outcome_def q fl_eval)
  from coach_first_match_wins [OF g1, of 1] r1
  have e1: "evaluate hot_and_behind = coach_rule_outcome 1 hot_and_behind" by simp
  have p: "heart_rate_ratio ahead_and_chased = NaN"
    by (simp add: heart_rate_ratio_def ToNumber_def ahead_and_chased_def inf_of_sign_def)
  have n1: "\<not> coach_rule_holds 1 ahead_and_chased"
    by (simp add: coach_rule_holds_def p js_ge_def js_le_def js_eq_def)
  have s2: "coach_rule_holds 2 ahead_and_chased"
    by (simp add: coach_rule_holds_def seconds_ahead_def js_sub_def js_gt_def
        ahead_and_chased_def fl_eval)
  have s5: "coach_rule_holds 5 ahead_and_chased"
    by (simp add: coach_rule_holds_def js_gt_def ahead_and_chased_def)
  have g2: "currentHR ahead_and_chased = None
            \<or> (\<exists>mx. maxHR ahead_and_chased = Some mx \<and> mx \<noteq> Num 0)"
    by (simp add: ahead_and_chased_def)
  have b2: "\<forall>j. 1 \<le> j \<and> j < 2 \<longrightarrow> \<not> coach_rule_holds j ahead_and_chased"
  proof (intro allI impI)
    fix j :: nat assume "1 \<le> j \<and> j < 2"
    then have "j = 1" by arith
    then show "\<not> coach_rule_holds j ahead_and_chased" using n1 by simp
  qed
  have o2: "coach_rule_outcome 2 ahead_and_chased =
       \<lparr>message = AheadHoldBack (Num 40), priority = warning,
        context_tip = Context ''Pacing too fast early''\<rparr>"
    by (simp add: coach_rule_outcome_def seconds_behind_def js_sub_def ahead_and_chased_def
        fl_eval)
  from coach_first_match_wins [OF g2, of 2] s2 b2
  have e2: "evaluate ahead_and_chased = coach_rule_outcome 2 ahead_and_chased" by simp
  have c: "heart_rate_ratio calm_row = Num (3555473390029339 / 4503599627370496)"
    by (simp add: heart_rate_ratio_def ToNumber_def calm_row_def fl_eval)
  have g3: "currentHR calm_row = None \<or> (\<exists>mx. maxHR calm_row = Some mx \<and> mx \<noteq> Num 0)"
    by (simp add: calm_row_def)
  have z: "seconds_behind calm_row = Num 0" "seconds_ahead calm_row = Num 0"
    by (simp_all add: seconds_behind_def seconds_ahead_def js_sub_def calm_row_def fl_def)
  have k: "competitorDelta calm_row = None" by (simp add: calm_row_def)
  have b3: "\<forall>j. 1 \<le> j \<and> j < 6 \<longrightarrow> \<not> coach_rule_holds j calm_row"
    by (simp add: coach_rule_holds_def c z k dec_93 dec_85 js_ge_def js_le_def js_eq_def
        js_gt_def)
  have o3: "coach_rule_outcome 6 calm_row =
       \<lparr>message = Message ''Strong drive, quick recovery.'', priority = info,
        context_tip = SegmentOf16 (Num 10)\<rparr>"
    by (simp add: coach_rule_outcome_def segment_tip_def SEGMENT_TIPS_def calm_row_def fl_eval)
  from coach_first_match_wins [OF g3, of 6] b3
  have e3: "evaluate calm_row = coach_rule_outcome 6 calm_row"
    by (simp add: coach_rule_holds_def)
  from r1 r3 r5 e1 o1 s2 s5 e2 o2 e3 o3 show ?thesis by simp
qed

text \<open>
  C8, as stated: with a current heart rate of 182 and a maximum of \<^verbatim>\<open>0\<close> the quotient
  \<^verbatim>\<open>currentHR / maxHR\<close> is \<^verbatim>\<open>Infinity\<close>, which is at least \<^verbatim>\<open>0.93\<close>, so rule 1 holds; but
  \<open>evaluate\<close> takes the ratio to be \<^verbatim>\<open>0\<close> and returns the warning of rule 3.
\<close>

theorem coach_zero_max_counterexample:
  "js_div (Num 182) (Num 0) = PosInf
   \<and> js_ge (heart_rate_ratio zero_max_hr) (dec (93 / 100))
   \<and> coach_rule_holds 1 zero_max_hr
   \<and> evaluate zero_max_hr =
       \<lparr>message = BehindSteady (Num 40), priority = warning,
        context_tip = Context ''Behind target pace''\<rparr>
   \<and> evaluate zero_max_hr \<noteq> coach_rule_outcome 1 zero_max_hr"
proof -
  have q: "heart_rate_ratio zero_max_hr = PosInf"
    by (simp add: heart_rate_ratio_def ToNumber_def zero_max_hr_def inf_of_sign_def)
  have g: "js_ge PosInf (dec (93 / 100))" by (simp add: dec_93 js_ge_def js_le_def)
  have h: "hrPct_of zero_max_hr = Num 0"
    by (simp add: hrPct_of_def zero_max_hr_def js_truthy_def)
  have d: "delta_of zero_max_hr = Num 40"
    by (simp add: delta_of_def js_sub_def zero_max_hr_def fl_eval)
  have e: "evaluate zero_max_hr =
       \<lparr>message = BehindSteady (Num 40), priority = warning,
        context_tip = Context ''Behind target pace''\<rparr>"
    by (simp add: evaluate_def h d dec_93 js_ge_def js_le_def js_eq_def js_gt_def Let_def)
  have "js_div (Num 182) (Num 0) = PosInf" by (simp add: inf_of_sign_def)
  moreover have "coach_rule_holds 1 zero_max_hr" using g by (simp add: coach_rule_holds_def q)
  moreover have "evaluate zero_max_hr \<noteq> coach_rule_outcome 1 zero_max_hr"
    unfolding e by (simp add: coach_rule_outcome_def)
  ultimately show ?thesis using e g q by simp
qed

section \<open>The race store: results\<close>








section \<open>The track mapper: results\<close>

lemmas track_eval = getTrackPosition_def Math_max_def Math_min_def js_ge_def js_le_def js_eq_def
  dec_def fl_eval

lemma track_position_int:
  assumes "0 \<le> n" and "n \<le> 16"
  shows "continuousPosition (getTrackPosition (Num (of_int n)))
           = Num (of_int (n div 2) + (if odd n then 1 / 2 else 0))
       \<and> isFinished (getTrackPosition (Num (of_int n))) = (n = 16)"
proof -
  from assms have "n \<in> {16, 15, 14, 13, 12, 11, 10, 9, 8, 7, 6, 5, 4, 3, 2, 1, 0}"
    by (unfold insert_iff empty_iff) arith
  then show ?thesis
    by (elim insertE emptyE) (simp_all add: track_eval)
qed

lemma half_formula: "of_int (n div 2) + (if odd n then 1 / 2 else 0) = (of_int n / 2 :: real)"
  by (cases "odd n") (auto elim!: oddE evenE)

text \<open>
  C6. For counts \<open>m \<le> n\<close> between 0 and 16, the continuous position of \<open>n\<close> is
  \<open>\<lfloor>n / 2\<rfloor>\<close>, plus one half when \<open>n\<close> is odd; it lies between 0 and 8 and is not below
  the position of \<open>m\<close>; and the position is finished exactly when \<open>n\<close> is 16.
\<close>

theorem track_position_monotone:
  assumes "0 \<le> m" and "m \<le> n" and "n \<le> 16"
  shows "continuousPosition (getTrackPosition (Num (of_int n)))
           = Num (of_int (n div 2) + (if odd n then 1 / 2 else 0))
       \<and> js_le (Num 0) (continuousPosition (getTrackPosition (Num (of_int n))))
       \<and> js_le (continuousPosition (getTrackPosition (Num (of_int n)))) (Num 8)
       \<and> js_le (continuousPosition (getTrackPosition (Num (of_int m))))
               (continuousPosition (getTrackPosition (Num (of_int n))))
       \<and> isFinished (getTrackPosition (Num (of_int n))) = (n = 16)"
proof -
  let ?f = "\<lambda>k::int. (of_int (k div 2) + (if odd k then 1 / 2 else 0) :: real)"
  have pm: "continuousPosition (getTrackPosition (Num (of_int m))) = Num (?f m)"
    using track_position_int [of m] assms by simp
  have pn: "continuousPosition (getTrackPosition (Num (of_int n))) = Num (?f n)"
    "isFinished (getTrackPosition (Num (of_int n))) = (n = 16)"
    using track_position_int [of n] assms by simp_all
  have "?f m \<le> ?f n" "0 \<le> ?f n" "?f n \<le> 8"
    using assms unfolding half_formula by simp_all
  then have "js_le (Num 0) (Num (?f n))" "js_le (Num (?f n)) (Num 8)"
    "js_le (Num (?f m)) (Num (?f n))"
    by (auto simp add: js_le_def js_eq_def)
  with pm pn show ?thesis by simp
qed

theorem track_position_monotone_witness:
  "(0::int) \<le> 3 \<and> (3::int) \<le> 8 \<and> (8::int) \<le> 16
   \<and> continuousPosition (getTrackPosition (Num 8)) = Num 4
   \<and> js_le (continuousPosition (getTrackPosition (Num 3)))
           (continuousPosition (getTrackPosition (Num 8)))
   \<and> \<not> isFinished (getTrackPosition (Num 8))"
  using track_position_monotone [of 3 8] by auto


section \<open>The track mapper on every number\<close>

lemma round_half_even_int [simp]: "round_half_even (of_int k) = k"
  by (simp add: round_half_even_def)

lemma fl_le_grid:
  assumes "x \<noteq> 0" and "x \<le> a" and "a < 2 ^ 1024"
    and "a = of_int N * pow2 (max (exponent_of x) (- 1022) - 52)"
  shows "fl x = NegInf \<or> (\<exists>r. fl x = Num r \<and> r \<le> a)"
proof -
  let ?q = "pow2 (max (exponent_of x) (- 1022) - 52)"
  let ?r = "of_int (round_half_even (x / ?q)) * ?q"
  have q: "0 < ?q" by (rule pow2_pos)
  have "x / ?q \<le> of_int N" using assms(2,4) q by (simp add: pos_divide_le_eq)
  then have "round_half_even (x / ?q) \<le> N" by (rule round_half_even_le)
  then have "?r \<le> of_int N * ?q" using q by simp
  then have ra: "?r \<le> a" using assms(4) by simp
  then have "\<not> 2 ^ 1024 \<le> ?r" using assms(3) by linarith
  then have "fl x = (if ?r \<le> - (2 ^ 1024) then NegInf else Num ?r)"
    using assms(1) by (simp add: fl_def Let_def)
  then show ?thesis using ra by simp
qed

lemma bitlen_small:
  "bitlen (Suc 0) = 1" "bitlen 2 = 2" "bitlen 3 = 2" "bitlen 4 = 3" "bitlen 5 = 3" "bitlen 6 = 3"
  "bitlen 7 = 3" "bitlen 8 = 4" "bitlen 9 = 4" "bitlen 10 = 4" "bitlen 11 = 4" "bitlen 12 = 4"
  "bitlen 13 = 4" "bitlen 14 = 4" "bitlen 15 = 4"
  by (simp_all add: bitlen.simps)

lemma exponent_below_4:
  fixes z :: real
  assumes "0 < z" and "z < 4"
  shows "exponent_of z \<le> 1"
proof (cases "1 \<le> z")
  case True
  have "1 \<le> \<lfloor>z\<rfloor>" "\<lfloor>z\<rfloor> < 4" using True assms(2) by (simp_all add: le_floor_iff floor_less_iff)
  then have "\<lfloor>z\<rfloor> = 1 \<or> \<lfloor>z\<rfloor> = 2 \<or> \<lfloor>z\<rfloor> = 3" by arith
  moreover have "exponent_of z = int (bitlen (nat \<lfloor>z\<rfloor>)) - 1"
    using True by (rule exponent_of_ge_1(1))
  ultimately show ?thesis by (auto simp add: bitlen_small)
next
  case False
  then show ?thesis using assms(1) by (simp add: exponent_of_def Let_def)
qed

lemma exponent_4_8:
  fixes z :: real
  assumes "4 \<le> z" and "z < 8"
  shows "exponent_of z = 2"
proof -
  have "4 \<le> \<lfloor>z\<rfloor>" "\<lfloor>z\<rfloor> < 8" using assms by (simp_all add: le_floor_iff floor_less_iff)
  then have "\<lfloor>z\<rfloor> = 4 \<or> \<lfloor>z\<rfloor> = 5 \<or> \<lfloor>z\<rfloor> = 6 \<or> \<lfloor>z\<rfloor> = 7" by arith
  moreover have "exponent_of z = int (bitlen (nat \<lfloor>z\<rfloor>)) - 1"
    using assms(1) by (intro exponent_of_ge_1(1)) simp
  ultimately show ?thesis by (auto simp add: bitlen_small)
qed

lemma exponent_8_16:
  fixes z :: real
  assumes "8 \<le> z" and "z < 16"
  shows "exponent_of z = 3"
proof -
  have "8 \<le> \<lfloor>z\<rfloor>" "\<lfloor>z\<rfloor> < 16" using assms by (simp_all add: le_floor_iff floor_less_iff)
  then have "\<lfloor>z\<rfloor> \<in> {15, 14, 13, 12, 11, 10, 9, 8}"
    by (unfold insert_iff empty_iff) arith
  moreover have "exponent_of z = int (bitlen (nat \<lfloor>z\<rfloor>)) - 1"
    using assms(1) by (intro exponent_of_ge_1(1)) simp
  ultimately show ?thesis by (auto simp add: bitlen_small)
qed

lemma fl_Num_D:
  assumes "x \<noteq> 0" and "fl x = Num y"
  shows "y = of_int (round_half_even (x / pow2 (max (exponent_of x) (- 1022) - 52)))
               * pow2 (max (exponent_of x) (- 1022) - 52)"
  using assms unfolding fl_def Let_def by (auto split: if_splits)

lemma fl_exact:
  \<comment> \<open>a value on the grid of its exponent, and of finite size, is not changed\<close>
  assumes "x \<noteq> 0" and "x = of_int k * pow2 (max (exponent_of x) (- 1022) - 52)"
    and "\<bar>x\<bar> < 2 ^ 1024"
  shows "fl x = Num x"
proof -
  let ?q = "pow2 (max (exponent_of x) (- 1022) - 52)"
  have "x / ?q = of_int k" using assms(2) pow2_pos [of "max (exponent_of x) (- 1022) - 52"]
    by (metis less_numeral_extra(3) nonzero_eq_divide_eq)
  then have r: "of_int (round_half_even (x / ?q)) * ?q = x" using assms(2) by simp
  have "\<not> 2 ^ 1024 \<le> x" "\<not> x \<le> - (2 ^ 1024)" using assms(3) by linarith+
  then show ?thesis using assms(1) unfolding fl_def Let_def r by simp
qed

lemma half_below_8:
  \<comment> \<open>half of a binary64 value under 16 rounds to a value under 8\<close>
  assumes "representable x" and "0 \<le> x" and "x < 16"
  shows "\<exists>y. fl (x / 2) = Num y \<and> 0 \<le> y \<and> y < 8"
proof (cases "x < 8")
  case True
  show ?thesis
  proof (cases "x = 0")
    case True
    then show ?thesis by (simp add: fl_def)
  next
    case False
    let ?z = "x / 2"
    have z: "0 < ?z" "?z < 4" "?z \<noteq> 0" using False assms(2) \<open>x < 8\<close> by simp_all
    let ?e = "max (exponent_of ?z) (- 1022)"
    have e: "?e \<le> 1" using exponent_below_4 [OF z(1,2)] by simp
    then have q: "pow2 (?e - 52) = 1 / 2 ^ nat (52 - ?e)" by (simp add: pow2_def)
    have g: "(4::real) = of_int (4 * 2 ^ nat (52 - ?e)) * pow2 (?e - 52)"
      unfolding q by simp
    have "fl ?z = NegInf \<or> (\<exists>r. fl ?z = Num r \<and> r \<le> 4)"
      using z(2) by (intro fl_le_grid [OF z(3) _ _ g]) simp_all
    moreover have "js_ge (fl ?z) (Num (of_int 0))"
      using z(1) by (intro fl_ge_int) simp_all
    ultimately show ?thesis by (auto simp add: js_ge_Num)
  qed
next
  case False
  then have x8: "8 \<le> x" by simp
  then have x0: "x \<noteq> 0" by simp
  have ex: "max (exponent_of x) (- 1022) - 52 = - 49"
    using exponent_8_16 [OF x8 assms(3)] by simp
  let ?k = "round_half_even (x / pow2 (- 49))"
  have "fl x = Num x" using assms(1) by (simp add: representable_def)
  then have xk: "x = of_int ?k * pow2 (- 49)"
    using fl_Num_D [OF x0, of x] unfolding ex by simp
  let ?z = "x / 2"
  have z: "4 \<le> ?z" "?z < 8" using x8 assms(3) by simp_all
  have ez: "max (exponent_of ?z) (- 1022) - 52 = - 50"
    using exponent_4_8 [OF z] by simp
  have "pow2 (- 49) = 2 * pow2 (- 50)" by (simp add: pow2_def)
  then have zk: "?z = of_int ?k * pow2 (max (exponent_of ?z) (- 1022) - 52)"
    unfolding ez using xk by simp
  have "\<bar>?z\<bar> < 2 ^ 1024" using z by simp
  then have "fl ?z = Num ?z" using z(1) zk by (intro fl_exact) simp_all
  moreover have "0 \<le> ?z" "?z < 8" using z by simp_all
  ultimately show ?thesis by blast
qed

lemma track_negative:
  assumes "js_lt a (Num 0)"
  shows "getTrackPosition a = start_position"
proof -
  from assms have "a = NegInf \<or> (\<exists>x. a = Num x \<and> x < 0)" by (cases a) simp_all
  then have "Math_max (Num 0) (Math_min (Num 16) a) = Num 0"
    by (auto simp add: Math_max_def Math_min_def)
  then show ?thesis
    by (simp add: getTrackPosition_def Let_def start_position_def js_ge_def js_le_def js_eq_def
        Math_min_def SEGMENT_ACTIVITIES_def at_index_def activity_names_def fl_def)
qed

lemma track_above:
  assumes "js_ge b (Num 16)"
  shows "getTrackPosition b = finished_position"
proof -
  from assms have "b = PosInf \<or> (\<exists>x. b = Num x \<and> 16 \<le> x)" by (auto simp add: js_ge_Num)
  then have "Math_max (Num 0) (Math_min (Num 16) b) = Num 16"
    by (auto simp add: Math_max_def Math_min_def)
  then show ?thesis
    by (simp add: getTrackPosition_def Let_def finished_position_def js_ge_def js_le_def js_eq_def)
qed

lemma lap_position:
  assumes "0 \<le> j" and "j \<le> 7"
  shows "js_add (Num (of_int j)) (Num 0) = Num (of_int j)
       \<and> js_add (Num (of_int j)) (dec (1 / 2)) = Num (of_int j + 1 / 2)"
proof -
  from assms have "j \<in> {7, 6, 5, 4, 3, 2, 1, 0}"
    by (unfold insert_iff empty_iff) arith
  then show ?thesis by (elim insertE emptyE) (simp_all add: dec_def fl_eval)
qed

lemma activity_in_table:
  "(case SEGMENT_ACTIVITIES c of Some a \<Rightarrow> a | None \<Rightarrow> ''Unknown'') \<in> set activity_names
   \<or> (case SEGMENT_ACTIVITIES c of Some a \<Rightarrow> a | None \<Rightarrow> ''Unknown'') = ''Unknown''"
  by (cases c) (auto simp add: SEGMENT_ACTIVITIES_def at_index_def)

lemma js_le_Num [simp]: "js_le (Num u) (Num v) = (u \<le> v)"
  by (auto simp add: js_le_def js_eq_def)

lemma track_between:
  assumes "representable x" and "0 \<le> x" and "x < 16"
  shows "position_in_range (getTrackPosition (Num x))"
proof -
  have c: "Math_max (Num 0) (Math_min (Num 16) (Num x)) = Num x"
    using assms(2,3) by (auto simp add: Math_max_def Math_min_def)
  obtain y where y: "fl (x / 2) = Num y" "0 \<le> y" "y < 8"
    using half_below_8 [OF assms] by blast
  define j where "j = \<lfloor>y\<rfloor>"
  have j: "0 \<le> j" "j \<le> 7" using y(2,3) by (simp_all add: j_def floor_less_iff le_floor_iff)
  have lap: "Math_floor (js_div (Num x) (Num 2)) = Num (of_int j)"
    using y(1) by (simp add: j_def)
  define frac where
    "frac = (if js_eq (js_mod (Num x) (Num 2)) (Num 0) then Num 0 else dec (1 / 2))"
  define pos where "pos = js_add (Num (of_int j)) frac"
  have "pos = Num (of_int j) \<or> pos = Num (of_int j + 1 / 2)"
    using lap_position [OF j] unfolding pos_def frac_def by presburger
  then obtain v where v: "pos = Num v" "0 \<le> v" "v \<le> 8"
    using j by (elim disjE) simp_all
  have st: "Math_min (Num (of_int j)) (Num 7) = Num (of_int j)"
    using j by (simp add: Math_min_def)
  have ng: "\<not> js_ge (Num x) (Num 16)" using assms(3) by (simp add: js_ge_def)
  have g: "getTrackPosition (Num x) =
      \<lparr>stationIndex = Num (of_int j), lapFraction = frac,
       continuousPosition = pos, isFinished = False,
       currentActivity =
         (case SEGMENT_ACTIVITIES (Num x) of Some a \<Rightarrow> a | None \<Rightarrow> ''Unknown'')\<rparr>"
    unfolding getTrackPosition_def Let_def c lap st pos_def frac_def
    using ng by simp
  show ?thesis unfolding g position_in_range_def
    using v j activity_in_table [of "Num x"] by auto
qed

text \<open>
  C10, as the code has it. Every negative input, \<^verbatim>\<open>-Infinity\<close> included, gives the start
  position (station 0, position 0, not finished). Every input above 16, \<^verbatim>\<open>Infinity\<close>
  included, gives the finished position (station 7, position 8, finished). For every
  input that is a number other than \<^verbatim>\<open>NaN\<close>, whole or not, the station index is between
  0 and 7, the position between 0 and 8, and the activity a name of the table,
  \<^verbatim>\<open>Finished\<close> or \<^verbatim>\<open>Unknown\<close>.
\<close>

theorem track_position_total:
  "(js_lt a (Num 0) \<longrightarrow> getTrackPosition a = start_position)
   \<and> (js_gt b (Num 16) \<longrightarrow> getTrackPosition b = finished_position)
   \<and> (js_number c \<and> c \<noteq> NaN \<longrightarrow> position_in_range (getTrackPosition c))"
proof (intro conjI impI)
  assume "js_lt a (Num 0)"
  then show "getTrackPosition a = start_position" by (rule track_negative)
next
  assume "js_gt b (Num 16)"
  then have "js_ge b (Num 16)" by (simp add: js_gt_def js_ge_def js_le_def)
  then show "getTrackPosition b = finished_position" by (rule track_above)
next
  assume h: "js_number c \<and> c \<noteq> NaN"
  have s: "position_in_range start_position" "position_in_range finished_position"
    by (simp_all add: position_in_range_def start_position_def finished_position_def
        js_le_def js_eq_def activity_names_def)
  show "position_in_range (getTrackPosition c)"
  proof (cases "js_lt c (Num 0)")
    case True
    then show ?thesis using track_negative s by simp
  next
    case False
    show ?thesis
    proof (cases "js_ge c (Num 16)")
      case True
      then show ?thesis using track_above s by simp
    next
      case g: False
      from h False g obtain x where x: "c = Num x" "0 \<le> x" "x < 16"
        by (cases c) (auto simp add: js_ge_Num)
      then have "representable x" using h by (simp add: js_number_def)
      then show ?thesis using track_between x by simp
    qed
  qed
qed

lemma track_nan:
  "getTrackPosition NaN =
     \<lparr>stationIndex = NaN, lapFraction = dec (1 / 2), continuousPosition = NaN,
      isFinished = False, currentActivity = ''Unknown''\<rparr>"
  by (simp add: getTrackPosition_def Let_def Math_max_def Math_min_def js_ge_def js_le_def
      js_eq_def SEGMENT_ACTIVITIES_def)

lemma representable_7_2: "representable (7 / 2)"
  by (simp add: representable_def fl_eval)

theorem track_position_total_witness:
  "js_lt (Num (- 3)) (Num 0) \<and> getTrackPosition (Num (- 3)) = start_position
   \<and> js_gt PosInf (Num 16) \<and> getTrackPosition PosInf = finished_position
   \<and> js_number (Num (7 / 2)) \<and> Num (7 / 2) \<noteq> NaN
   \<and> position_in_range (getTrackPosition (Num (7 / 2)))"
  using track_position_total [of "Num (- 3)" PosInf "Num (7 / 2)"] representable_7_2
  by (simp add: js_gt_def js_number_def)

text \<open>
  C10, as stated: \<^verbatim>\<open>NaN\<close> is not clamped. \<^verbatim>\<open>Math.min(16, NaN)\<close> and
  \<^verbatim>\<open>Math.max(0, NaN)\<close> are \<^verbatim>\<open>NaN\<close>, and the result has the station index and the
  position \<^verbatim>\<open>NaN\<close>, outside every range.
\<close>

theorem track_position_nan_counterexample:
  "getTrackPosition NaN =
     \<lparr>stationIndex = NaN, lapFraction = dec (1 / 2), continuousPosition = NaN,
      isFinished = False, currentActivity = ''Unknown''\<rparr>
   \<and> \<not> position_in_range (getTrackPosition NaN)"
  by (simp add: track_nan position_in_range_def js_le_def js_eq_def)

section \<open>The redline tracker: results\<close>

lemma js_lt_asym: "js_lt a b \<Longrightarrow> \<not> js_lt b a"
  by (cases a; cases b) simp_all

lemma js_lt_irrefl: "\<not> js_lt a a"
  by (cases a) simp_all

lemma in_redline_tests:
  assumes "in_redline (Some hr) (Some mx)"
  shows "\<not> js_le mx (Num 0)" and "\<not> js_lt (js_div hr mx) REDLINE_THRESHOLD"
proof -
  from assms have a: "js_lt (Num 0) mx" and b: "js_le REDLINE_THRESHOLD (js_div hr mx)"
    by (simp_all add: in_redline_def js_gt_def js_ge_def)
  from a show "\<not> js_le mx (Num 0)"
    using js_lt_asym [of "Num 0" mx] js_lt_irrefl [of mx]
    by (auto simp add: js_le_def js_eq_def)
  from b show "\<not> js_lt (js_div hr mx) REDLINE_THRESHOLD"
    using js_lt_asym [of REDLINE_THRESHOLD "js_div hr mx"] js_lt_irrefl [of "js_div hr mx"]
    by (auto simp add: js_le_def js_eq_def)
qed

lemma in_redline_Some: "in_redline hr mx \<Longrightarrow> \<exists>h m. hr = Some h \<and> mx = Some m"
  by (cases hr; cases mx) (simp_all add: in_redline_def)

lemma record_below:
  assumes "below_redline hr mx"
  shows "recordHRSample hr mx now st
           = (None, st\<lparr>lastSampleTime := Some now, redlineStartTime := None\<rparr>)"
  using assms
  by (cases hr; cases mx) (simp_all add: below_redline_def recordHRSample_def Let_def)


lemma record_in_None:
  assumes "in_redline hr mx" and "redlineStartTime st = None"
  shows "recordHRSample hr mx now st
           = (None, st\<lparr>lastSampleTime := Some now, redlineStartTime := Some now\<rparr>)"
proof -
  from assms(1) obtain h m where e: "hr = Some h" "mx = Some m"
    using in_redline_Some by blast
  show ?thesis using in_redline_tests [of h m] assms e
    by (simp add: recordHRSample_def Let_def)
qed

lemma record_in_short:
  assumes "in_redline hr mx" and "redlineStartTime st = Some t0" and "now - t0 < 120000"
  shows "recordHRSample hr mx now st = (None, st\<lparr>lastSampleTime := Some now\<rparr>)"
proof -
  from assms(1) obtain h m where e: "hr = Some h" "mx = Some m"
    using in_redline_Some by blast
  show ?thesis using in_redline_tests [of h m] assms e
    by (simp add: recordHRSample_def Let_def REDLINE_DURATION_MS_def)
qed

lemma record_in_long:
  assumes "in_redline hr mx" and "redlineStartTime st = Some t0" and "120000 \<le> now - t0"
  shows "\<exists>a st'. recordHRSample hr mx now st = (Some a, st') \<and> redlineStartTime st' = None
           \<and> triggered_at a = t0
           \<and> duration_seconds a = Math_round (js_div (Num (of_int (now - t0))) (Num 1000))"
proof -
  from assms(1) obtain h m where e: "hr = Some h" "mx = Some m"
    using in_redline_Some by blast
  show ?thesis using in_redline_tests [of h m] assms e
    by (simp add: recordHRSample_def Let_def REDLINE_DURATION_MS_def)
qed

lemma record_samples_Cons:
  "record_samples st ((hr, mx, now) # rest) =
     ((case fst (recordHRSample hr mx now st) of None \<Rightarrow> [] | Some a \<Rightarrow> [a])
        @ fst (record_samples (snd (recordHRSample hr mx now st)) rest),
      snd (record_samples (snd (recordHRSample hr mx now st)) rest))"
  by (simp add: split_def Let_def)

lemma samples_quiet:
  assumes "list_all (\<lambda>x. in_redline (fst x) (fst (snd x))) xs"
    and "redlineStartTime st = Some t0"
    and "\<forall>x \<in> set xs. sample_time x - t0 < 120000"
  shows "fst (record_samples st xs) = []"
  using assms
proof (induction xs arbitrary: st)
  case Nil
  then show ?case by simp
next
  case (Cons x xs)
  obtain hr mx now where x: "x = (hr, mx, now)" by (cases x) auto
  have "in_redline hr mx" "now - t0 < 120000"
    using Cons.prems x by (simp_all add: sample_time_def)
  then have r: "recordHRSample hr mx now st = (None, st\<lparr>lastSampleTime := Some now\<rparr>)"
    using Cons.prems(2) by (intro record_in_short)
  have "fst (record_samples (st\<lparr>lastSampleTime := Some now\<rparr>) xs) = []"
    using Cons.prems by (intro Cons.IH) simp_all
  then show ?case unfolding x record_samples_Cons r by simp
qed

lemma sorted_le_last:
  "sorted (map f xs) \<Longrightarrow> y \<in> set xs \<Longrightarrow> f y \<le> f (last xs)"
  by (induction xs) auto


lemma excursion_Cons:
  "excursion ((hr, mx, t) # rest) \<Longrightarrow>
     in_redline hr mx \<and> list_all (\<lambda>x. in_redline (fst x) (fst (snd x))) rest
     \<and> sorted (map sample_time rest) \<and> (\<forall>y \<in> set rest. t \<le> sample_time y)"
  by (auto simp add: excursion_def sample_time_def)

lemma excursion_tail: "excursion (x # rest) \<Longrightarrow> excursion rest"
  by (simp add: excursion_def)

lemma samples_after_mark:
  \<comment> \<open>no alert while every sample is less than 120 s after the first of the excursion\<close>
  assumes "excursion ((hr, mx, t0) # rest)" and "redlineStartTime st = None"
    and "\<forall>y \<in> set rest. sample_time y - t0 < 120000"
  shows "fst (record_samples st ((hr, mx, t0) # rest)) = []"
proof -
  have inz: "in_redline hr mx" "list_all (\<lambda>x. in_redline (fst x) (fst (snd x))) rest"
    using excursion_Cons [OF assms(1)] by simp_all
  have r: "recordHRSample hr mx t0 st
             = (None, st\<lparr>lastSampleTime := Some t0, redlineStartTime := Some t0\<rparr>)"
    using inz(1) assms(2) by (rule record_in_None)
  have "fst (record_samples (st\<lparr>lastSampleTime := Some t0, redlineStartTime := Some t0\<rparr>) rest) = []"
    using inz(2) assms(3) by (intro samples_quiet [where ?t0.0 = t0]) simp_all
  then show ?thesis unfolding record_samples_Cons r by simp
qed

lemma excursion_short:
  assumes "excursion xs" and "redlineStartTime st = None" and "xs \<noteq> []"
    and "excursion_span xs < 120000"
  shows "fst (record_samples st xs) = []"
proof -
  from assms(3) obtain x rest where xs: "xs = x # rest" by (cases xs) auto
  obtain hr mx t0 where x: "x = (hr, mx, t0)" by (cases x) auto
  have srt: "sorted (map sample_time xs)" using assms(1) by (simp add: excursion_def)
  have "\<forall>y \<in> set rest. sample_time y - t0 < 120000"
  proof
    fix y assume "y \<in> set rest"
    then have "sample_time y \<le> sample_time (last xs)"
      using sorted_le_last [OF srt, of y] xs by simp
    then show "sample_time y - t0 < 120000"
      using assms(4) xs x by (simp add: excursion_span_def sample_time_def)
  qed
  then show ?thesis using samples_after_mark assms(1,2) xs x by blast
qed

lemma samples_one_alert:
  \<comment> \<open>with the marker at \<open>t0\<close>: one alert when the last sample is 120 s to 240 s after it\<close>
  assumes "list_all (\<lambda>x. in_redline (fst x) (fst (snd x))) xs"
    and "sorted (map sample_time xs)" and "xs \<noteq> []"
    and "redlineStartTime st = Some t0"
    and "\<forall>x \<in> set xs. t0 \<le> sample_time x"
    and "120000 \<le> sample_time (last xs) - t0" and "sample_time (last xs) - t0 < 240000"
  shows "length (fst (record_samples st xs)) = 1"
  using assms
proof (induction xs arbitrary: st)
  case Nil
  then show ?case by simp
next
  case (Cons x xs)
  obtain hr mx now where x: "x = (hr, mx, now)" by (cases x) auto
  have inz: "in_redline hr mx" using Cons.prems(1) x by simp
  show ?case
  proof (cases "now - t0 < 120000")
    case True
    then have r: "recordHRSample hr mx now st = (None, st\<lparr>lastSampleTime := Some now\<rparr>)"
      using inz Cons.prems(4) by (intro record_in_short)
    have ne: "xs \<noteq> []"
    proof
      assume "xs = []"
      then show False using Cons.prems(6) True x by (simp add: sample_time_def)
    qed
    have "length (fst (record_samples (st\<lparr>lastSampleTime := Some now\<rparr>) xs)) = 1"
      using Cons.prems ne by (intro Cons.IH) simp_all
    then show ?thesis unfolding x record_samples_Cons r by simp
  next
    case False
    then obtain a st' where r: "recordHRSample hr mx now st = (Some a, st')"
      and m: "redlineStartTime st' = None"
      using record_in_long [OF inz Cons.prems(4), of now] by auto
    have "fst (record_samples st' xs) = []"
    proof (cases xs)
      case Nil
      then show ?thesis by simp
    next
      case (Cons y ys)
      obtain hr' mx' t' where y: "y = (hr', mx', t')" by (cases y) auto
      have ex: "excursion ((hr', mx', t') # ys)"
        using Cons.prems(1,2) Cons y by (simp add: excursion_def)
      have le: "now \<le> t'" using Cons.prems(2) x Cons y by (simp add: sample_time_def)
      have srt: "sorted (map sample_time xs)" using Cons.prems(2) by simp
      have "\<forall>z \<in> set ys. sample_time z - t' < 120000"
      proof
        fix z assume "z \<in> set ys"
        then have "sample_time z \<le> sample_time (last xs)"
          using sorted_le_last [OF srt, of z] Cons by simp
        moreover have "sample_time (last xs) - t0 < 240000"
          using Cons.prems(7) Cons by simp
        ultimately show "sample_time z - t' < 120000" using le False by simp
      qed
      then show ?thesis using samples_after_mark [OF ex m] Cons y by simp
    qed
    then show ?thesis unfolding x record_samples_Cons r by simp
  qed
qed


lemma samples_some_alert:
  assumes "list_all (\<lambda>x. in_redline (fst x) (fst (snd x))) xs"
    and "redlineStartTime st = Some t0"
    and "\<exists>x \<in> set xs. 120000 \<le> sample_time x - t0"
  shows "fst (record_samples st xs) \<noteq> []"
  using assms
proof (induction xs arbitrary: st)
  case Nil
  then show ?case by simp
next
  case (Cons x xs)
  obtain hr mx now where x: "x = (hr, mx, now)" by (cases x) auto
  have inz: "in_redline hr mx" using Cons.prems(1) x by simp
  show ?case
  proof (cases "now - t0 < 120000")
    case True
    then have r: "recordHRSample hr mx now st = (None, st\<lparr>lastSampleTime := Some now\<rparr>)"
      using inz Cons.prems(2) by (intro record_in_short)
    have "\<exists>y \<in> set xs. 120000 \<le> sample_time y - t0"
      using Cons.prems(3) True x by (auto simp add: sample_time_def)
    then have "fst (record_samples (st\<lparr>lastSampleTime := Some now\<rparr>) xs) \<noteq> []"
      using Cons.prems by (intro Cons.IH) simp_all
    then show ?thesis unfolding x record_samples_Cons r by simp
  next
    case False
    then obtain a st' where r: "recordHRSample hr mx now st = (Some a, st')"
      using record_in_long [OF inz Cons.prems(2), of now] by auto
    show ?thesis unfolding x record_samples_Cons r by simp
  qed
qed

lemma excursion_fires:
  assumes "excursion xs" and "redlineStartTime st = None" and "xs \<noteq> []"
    and "120000 \<le> excursion_span xs"
  shows "fst (record_samples st xs) \<noteq> []"
    and "excursion_span xs < 240000 \<Longrightarrow> length (fst (record_samples st xs)) = 1"
proof -
  from assms(3) obtain x rest where xs: "xs = x # rest" by (cases xs) auto
  obtain hr mx t0 where x: "x = (hr, mx, t0)" by (cases x) auto
  have c: "in_redline hr mx" "list_all (\<lambda>x. in_redline (fst x) (fst (snd x))) rest"
    "sorted (map sample_time rest)" "\<forall>y \<in> set rest. t0 \<le> sample_time y"
    using excursion_Cons [of hr mx t0 rest] assms(1) xs x by simp_all
  have r: "recordHRSample hr mx t0 st
             = (None, st\<lparr>lastSampleTime := Some t0, redlineStartTime := Some t0\<rparr>)"
    using c(1) assms(2) by (rule record_in_None)
  have ne: "rest \<noteq> []"
  proof
    assume "rest = []"
    then show False using assms(4) xs x by (simp add: excursion_span_def)
  qed
  then have sp: "excursion_span xs = sample_time (last rest) - t0"
    using xs x by (simp add: excursion_span_def sample_time_def)
  have "last rest \<in> set rest" using ne by simp
  then have "\<exists>y \<in> set rest. 120000 \<le> sample_time y - t0"
    using assms(4) sp by auto
  then have "fst (record_samples (st\<lparr>lastSampleTime := Some t0, redlineStartTime := Some t0\<rparr>) rest) \<noteq> []"
    using c(2) by (intro samples_some_alert [where ?t0.0 = t0]) simp_all
  then show "fst (record_samples st xs) \<noteq> []"
    unfolding xs x record_samples_Cons r by simp
  assume "excursion_span xs < 240000"
  then have "length (fst (record_samples (st\<lparr>lastSampleTime := Some t0, redlineStartTime := Some t0\<rparr>) rest)) = 1"
    using c ne assms(4) sp by (intro samples_one_alert [where ?t0.0 = t0]) simp_all
  then show "length (fst (record_samples st xs)) = 1"
    unfolding xs x record_samples_Cons r by simp
qed

lemma ratio_974: "js_div (Num 487) (Num 500) = Num (4386506037058863 / 4503599627370496)"
  by (simp add: fl_eval)

lemma threshold_95: "REDLINE_THRESHOLD = Num (4278419646001971 / 4503599627370496)"
  by (simp add: REDLINE_THRESHOLD_def dec_def fl_eval)

lemma in_redline_974: "in_redline (Some (Num 487)) (Some (Num 500))"
  unfolding in_redline_def by (simp add: ratio_974 threshold_95 js_gt_def js_ge_def js_le_def del: js_div.simps)

lemma scenario_c_alert:
  "fst (record_samples initial_redline scenario_c_samples) =
     [\<lparr>alert_id = 1, triggered_at = 0, hr_avg = Num 487, hr_max_pct = dec (974 / 1000),
       duration_seconds = Num 125, recovery_tip = tip_standard, resolved_at = None\<rparr>]"
  by (simp add: scenario_c_samples_def initial_redline_def recordHRSample_def Let_def
      REDLINE_DURATION_MS_def REDLINE_THRESHOLD_def getRecoveryTip_def dec_def js_le_def
      js_eq_def js_ge_def js_gt_def fl_eval)

lemma long_excursion_alerts:
  "length (fst (record_samples initial_redline long_excursion)) = 2"
  by (simp add: long_excursion_def initial_redline_def recordHRSample_def Let_def
      REDLINE_DURATION_MS_def REDLINE_THRESHOLD_def getRecoveryTip_def dec_def js_le_def
      js_eq_def js_ge_def js_gt_def fl_eval)

lemma long_excursion_is_excursion: "excursion long_excursion \<and> excursion_span long_excursion = 250000"
  by (simp add: excursion_def long_excursion_def in_redline_974 sample_time_def excursion_span_def)

lemma short_excursion_is_excursion:
  "excursion short_excursion \<and> excursion_span short_excursion = 90000"
  by (simp add: excursion_def short_excursion_def in_redline_974 sample_time_def
      excursion_span_def)

lemma scenario_c_is_excursion:
  "excursion scenario_c_samples \<and> excursion_span scenario_c_samples = 125000"
  by (simp add: excursion_def scenario_c_samples_def in_redline_974 sample_time_def
      excursion_span_def)

text \<open>
  C7, as the code has it. A sample with a heart rate or a maximum missing, or with a
  ratio under \<^verbatim>\<open>0.95\<close>, returns no alert and clears the marker. An excursion is a run of
  samples in the zone, in the order of their times, that starts with the marker clear;
  its span is the time from its first sample to its last. An excursion with a span
  under 120 s returns no alert; one with a span of at least 120 s returns an alert, and
  exactly one if the span is under 240 s: an alert clears the marker, and an excursion
  that goes on fires again once another 120 s have passed. A ratio of \<^verbatim>\<open>0.974\<close>,
  sampled at the start and after 125 s, gives one alert with a duration of 125 s and the
  standard recovery tip.
\<close>

theorem redline_detector:
  "(below_redline hr mx \<longrightarrow>
      recordHRSample hr mx now st
        = (None, st\<lparr>lastSampleTime := Some now, redlineStartTime := None\<rparr>))
   \<and> (excursion xs \<and> xs \<noteq> [] \<and> redlineStartTime st1 = None \<and> excursion_span xs < 120000 \<longrightarrow>
        fst (record_samples st1 xs) = [])
   \<and> (excursion ys \<and> ys \<noteq> [] \<and> redlineStartTime st2 = None \<and> 120000 \<le> excursion_span ys \<longrightarrow>
        fst (record_samples st2 ys) \<noteq> []
        \<and> (excursion_span ys < 240000 \<longrightarrow> length (fst (record_samples st2 ys)) = 1))
   \<and> fst (record_samples initial_redline scenario_c_samples) =
        [\<lparr>alert_id = 1, triggered_at = 0, hr_avg = Num 487, hr_max_pct = dec (974 / 1000),
          duration_seconds = Num 125, recovery_tip = tip_standard, resolved_at = None\<rparr>]"
  using record_below [of hr mx now st] excursion_short [of xs st1]
    excursion_fires [of ys st2] scenario_c_alert
  by blast

theorem redline_detector_witness:
  "below_redline None (Some (Num 190))
   \<and> recordHRSample None (Some (Num 190)) 5000 initial_redline
       = (None, initial_redline\<lparr>lastSampleTime := Some 5000, redlineStartTime := None\<rparr>)
   \<and> excursion short_excursion \<and> excursion_span short_excursion < 120000
   \<and> fst (record_samples initial_redline short_excursion) = []
   \<and> excursion scenario_c_samples \<and> 120000 \<le> excursion_span scenario_c_samples
   \<and> excursion_span scenario_c_samples < 240000
   \<and> length (fst (record_samples initial_redline scenario_c_samples)) = 1"
proof -
  have b: "below_redline None (Some (Num 190))" by (simp add: below_redline_def)
  have n: "short_excursion \<noteq> []" "scenario_c_samples \<noteq> []"
    "redlineStartTime initial_redline = None"
    by (simp_all add: short_excursion_def scenario_c_samples_def initial_redline_def)
  show ?thesis
    using redline_detector [of None "Some (Num 190)" 5000 initial_redline short_excursion
        initial_redline scenario_c_samples initial_redline]
      b n short_excursion_is_excursion scenario_c_is_excursion
    by simp
qed

text \<open>
  C7, as stated: the samples at 0 s, 120 s, 130 s and 250 s with a ratio of \<^verbatim>\<open>0.974\<close>
  are one excursion of 250 s, and the detector returns two alerts for it.
\<close>

theorem redline_two_alerts_counterexample:
  "excursion long_excursion \<and> 120000 \<le> excursion_span long_excursion
   \<and> length (fst (record_samples initial_redline long_excursion)) = 2"
  using long_excursion_is_excursion long_excursion_alerts by simp

end
